theory Spec2Isabelle
  imports Complex_Main "HOL-Library.Stream"
begin

section \<open>Data model of the chat server\<close>

text \<open>
  The server keeps two process-wide variables, \<open>allSockets\<close> (an array of \<open>User\<close>
  objects) and \<open>rooms\<close> (a \<open>Map\<close> from room identifier to \<open>Room\<close> object).
  A WebSocket object is used by the code only through reference identity
  (\<open>user.socket === socket\<close>) and as the target of \<open>send\<close>, so a connection handle is
  a natural number naming the connection. \<open>User\<close> objects are never mutated after their
  creation, and a \<open>Room\<close> object is reachable only through the \<open>rooms\<close> map, so the
  registry is modelled by value.
\<close>

type_synonym socket = nat

record User =
  socket :: socket
  room :: string
  userId :: string

record Room =
  room_id :: string
  users :: "User list"
  createdAt :: nat

record registry =
  allSockets :: "User list"
  rooms :: "string \<rightharpoonup> Room"

definition initial :: registry where
  "initial = \<lparr>allSockets = [], rooms = Map.empty\<rparr>"

text \<open>
  One result of \<open>Math.random()\<close>: the value of the double, as a rational number, and the
  string that \<open>Number.prototype.toString(36)\<close> renders for it. ECMAScript leaves the digits
  of a rendering in a radix other than 10 to the engine, so the rendering is an input of the
  model and not computed from the value.
\<close>

record draw =
  val :: rat
  radix36 :: string

text \<open>Uncaught exceptions of the handlers.\<close>

datatype error = SyntaxError | TypeError

text \<open>
  A JSON value as \<open>JSON.parse\<close> returns it. The fields of an object are listed in the
  order of the text; on a repeated key the last occurrence is the property's value.
\<close>

datatype json =
    JNull
  | JBool bool
  | JNum rat
  | JStr string
  | JArr "json list"
  | JObj "(string \<times> json) list"

text \<open>
  The raw payload of a transport message, by what \<open>JSON.parse(message.toString())\<close> does
  with it: it throws a \<open>SyntaxError\<close>, or it returns a value.
\<close>

datatype inbound = Unparseable | Parsed json

text \<open>
  The envelopes the server sends. A \<open>message\<close> envelope carries the value of
  \<open>parsedMessage.payload.message\<close> (absent when that is \<open>undefined\<close>, as
  \<open>JSON.stringify\<close> drops the key), the sender's \<open>userId\<close> and the clock reading that
  \<open>toISOString\<close> renders.
\<close>

datatype envelope =
    RoomCreated string string
  | RoomJoined string string nat
  | UserJoined nat
  | UserLeft nat
  | ChatMessage "json option" string nat
  | ErrorEnv string

type_synonym outbox = "(socket \<times> envelope) list"

section \<open>JavaScript primitives used by the server\<close>

text \<open>
  Multiplication of doubles. \<open>roundEven\<close> rounds to the nearest integer, a tie going to
  the even one. \<open>scaleRound n x\<close> doubles \<open>x\<close> until it has 53 bits before the point
  (\<open>2 ^ 52 \<le> x\<close>), at most \<open>n\<close> times, rounds there and scales back; with \<open>n = 1074\<close>,
  the exponent of the smallest subnormal, this is the rounding of a number \<open>0 \<le> x < 2 ^ 53\<close>
  to the nearest binary64 value, ties to even, which is how \<open>*\<close> rounds its exact
  product. A rational number is a double when rounding leaves it as it is.
\<close>

definition roundEven :: "rat \<Rightarrow> int" where
  "roundEven x =
     (let f = \<lfloor>x\<rfloor>; r = x - of_int f
      in if r < 1 / 2 then f
         else if 1 / 2 < r then f + 1
         else if even f then f else f + 1)"

fun scaleRound :: "nat \<Rightarrow> rat \<Rightarrow> rat" where
  "scaleRound 0 x = of_int (roundEven x)"
| "scaleRound (Suc n) x =
     (if 2 ^ 52 \<le> x then of_int (roundEven x) else scaleRound n (2 * x) / 2)"

definition toDouble :: "rat \<Rightarrow> rat" where
  "toDouble x = scaleRound 1074 x"

definition binary64 :: "rat \<Rightarrow> bool" where
  "binary64 x = (toDouble x = x)"

definition fmul :: "rat \<Rightarrow> rat \<Rightarrow> rat" where
  "fmul x y = toDouble (x * y)"

definition charAt :: "string \<Rightarrow> int \<Rightarrow> string" where
  "charAt s i = (if 0 \<le> i \<and> i < int (length s) then [s ! nat i] else [])"

definition substring :: "string \<Rightarrow> nat \<Rightarrow> nat \<Rightarrow> string" where
  "substring s start fin =
     (let n = length s; a = min start n; b = min fin n
      in take (max a b - min a b) (drop (min a b) s))"

definition substring_from :: "string \<Rightarrow> nat \<Rightarrow> string" where
  "substring_from s start = substring s start (length s)"

definition JSON_parse :: "inbound \<Rightarrow> error + json" where
  "JSON_parse m = (case m of Unparseable \<Rightarrow> Inl SyntaxError | Parsed v \<Rightarrow> Inr v)"

text \<open>
  Property access \<open>v.k\<close> for the keys the server reads (\<open>type\<close>, \<open>payload\<close>,
  \<open>roomId\<close>, \<open>message\<close>; none of them is a property of a prototype): a \<open>TypeError\<close>
  on \<open>null\<close>, the member of an object, \<open>undefined\<close> (here \<open>None\<close>) otherwise.
\<close>

fun getProp :: "json \<Rightarrow> string \<Rightarrow> error + json option" where
  "getProp JNull k = Inl TypeError"
| "getProp (JObj kvs) k = Inr (map_of (rev kvs) k)"
| "getProp v k = Inr None"

text \<open>Property access on a value that may be \<open>undefined\<close>.\<close>

fun getPropOf :: "json option \<Rightarrow> string \<Rightarrow> error + json option" where
  "getPropOf None k = Inl TypeError"
| "getPropOf (Some v) k = getProp v k"

text \<open>\<open>Array.prototype.findIndex\<close> and \<open>splice(i, 1)\<close>.\<close>

fun findIndex :: "('a \<Rightarrow> bool) \<Rightarrow> 'a list \<Rightarrow> nat option" where
  "findIndex P [] = None"
| "findIndex P (x # xs) =
     (if P x then Some 0 else (case findIndex P xs of None \<Rightarrow> None | Some i \<Rightarrow> Some (Suc i)))"

definition splice1 :: "nat \<Rightarrow> 'a list \<Rightarrow> 'a list" where
  "splice1 i xs = take i xs @ drop (Suc i) xs"

section \<open>Identifier generators\<close>

definition chars :: string where
  "chars = ''ABCDEFGHIJKLMNOPQRSTUVWXYZabcdefghijklmnopqrstuvwxyz0123456789''"

definition has_upper :: "string \<Rightarrow> bool" where
  "has_upper s = list_ex (\<lambda>c. c \<in> set ''ABCDEFGHIJKLMNOPQRSTUVWXYZ'') s"

definition has_lower :: "string \<Rightarrow> bool" where
  "has_lower s = list_ex (\<lambda>c. c \<in> set ''abcdefghijklmnopqrstuvwxyz'') s"

definition has_digit :: "string \<Rightarrow> bool" where
  "has_digit s = list_ex (\<lambda>c. c \<in> set ''0123456789'') s"

text \<open>The \<open>for\<close> loop of \<open>generateRoomId\<close>; the first argument counts the iterations left.\<close>

fun roomIdLoop :: "nat \<Rightarrow> string \<Rightarrow> draw stream \<Rightarrow> string \<times> draw stream" where
  "roomIdLoop 0 result rnd = (result, rnd)"
| "roomIdLoop (Suc n) result rnd =
     roomIdLoop n (result @ charAt chars \<lfloor>fmul (val (shd rnd)) (of_nat (length chars))\<rfloor>) (stl rnd)"

text \<open>One pass of \<open>generateRoomId\<close> up to the collision check.\<close>

definition roomIdCandidate :: "draw stream \<Rightarrow> string \<times> draw stream" where
  "roomIdCandidate rnd0 =
     (let (r1, rnd1) = roomIdLoop 8 [] rnd0;
          (r2, rnd2) =
            (if \<not> has_upper r1
             then (substring_from r1 1 @ charAt chars \<lfloor>fmul (val (shd rnd1)) 26\<rfloor>, stl rnd1)
             else (r1, rnd1));
          (r3, rnd3) =
            (if \<not> has_lower r2
             then (substring_from r2 1 @ charAt chars (26 + \<lfloor>fmul (val (shd rnd2)) 26\<rfloor>), stl rnd2)
             else (r2, rnd2));
          (r4, rnd4) =
            (if \<not> has_digit r3
             then (substring_from r3 1 @ charAt chars (52 + \<lfloor>fmul (val (shd rnd3)) 10\<rfloor>), stl rnd3)
             else (r3, rnd3))
      in (r4, rnd4))"

text \<open>
  \<open>generateRoomId\<close> calls itself while the candidate is a key of \<open>rooms\<close>; nothing bounds
  the number of calls, so not returning is the value \<open>None\<close>.
\<close>

partial_function (option) generateRoomId ::
  "(string \<rightharpoonup> Room) \<Rightarrow> draw stream \<Rightarrow> (string \<times> draw stream) option" where
  "generateRoomId rms rnd =
     (case roomIdCandidate rnd of
        (result, rnd') \<Rightarrow>
          if rms result \<noteq> None then generateRoomId rms rnd' else Some (result, rnd'))"

definition generateUserId :: "draw \<Rightarrow> string" where
  "generateUserId d = substring (radix36 d) 2 15"

section \<open>The message handler\<close>

text \<open>
  A handler either does not return (\<open>None\<close>), throws (\<open>Some (Inl e)\<close>; nothing in the
  server catches an exception, so it leaves the listener), or returns the new registry
  with the envelopes it sent, in the order of the \<open>send\<close> calls.
\<close>

type_synonym 'a comp = "(error + 'a) option"

definition thenDo :: "'a comp \<Rightarrow> ('a \<Rightarrow> 'b comp) \<Rightarrow> 'b comp" where
  "thenDo m f = (case m of None \<Rightarrow> None | Some (Inl e) \<Rightarrow> Some (Inl e) | Some (Inr x) \<Rightarrow> f x)"

definition lift :: "error + 'a \<Rightarrow> 'a comp" where
  "lift r = Some r"

definition typeIs :: "json \<Rightarrow> string \<Rightarrow> bool comp" where
  "typeIs parsedMessage t =
     thenDo (lift (getProp parsedMessage ''type'')) (\<lambda>ty. Some (Inr (ty = Some (JStr t))))"

text \<open>
  The branches work on the registry, the envelopes sent so far and the rest of the random
  source. \<open>clock k\<close> is the reading of the \<open>k\<close>-th \<open>new Date()\<close> of the handler's run.
\<close>

type_synonym hstate = "registry \<times> outbox \<times> draw stream"

definition createRoomBranch :: "socket \<Rightarrow> (nat \<Rightarrow> nat) \<Rightarrow> hstate \<Rightarrow> hstate comp" where
  "createRoomBranch sock clock h =
     (case h of (s, out, rnd) \<Rightarrow>
        (case generateRoomId (rooms s) rnd of
           None \<Rightarrow> None
         | Some (roomId, rnd1) \<Rightarrow>
             let uid = generateUserId (shd rnd1);
                 user = \<lparr>socket = sock, room = roomId, userId = uid\<rparr>;
                 rm = \<lparr>room_id = roomId, users = [user], createdAt = clock 0\<rparr>
             in Some (Inr (s\<lparr>rooms := (rooms s)(roomId \<mapsto> rm),
                               allSockets := allSockets s @ [user]\<rparr>,
                           out @ [(sock, RoomCreated roomId uid)],
                           stl rnd1))))"

text \<open>
  \<open>rooms.has(roomId)\<close> and \<open>rooms.get(roomId)\<close>: the keys of \<open>rooms\<close> are strings, so
  only a string can be found.
\<close>

fun roomsGet :: "(string \<rightharpoonup> Room) \<Rightarrow> json option \<Rightarrow> (string \<times> Room) option" where
  "roomsGet rms (Some (JStr k)) = (case rms k of None \<Rightarrow> None | Some rm \<Rightarrow> Some (k, rm))"
| "roomsGet rms v = None"

text \<open>The \<open>joinRoom\<close> branch once \<open>roomId\<close> is bound.\<close>

definition joinRoomWith :: "socket \<Rightarrow> json option \<Rightarrow> hstate \<Rightarrow> hstate comp" where
  "joinRoomWith sock roomId h =
     (case h of (s, out, rnd) \<Rightarrow>
        let uid = generateUserId (shd rnd) in
        (case roomsGet (rooms s) roomId of
           Some (k, rm) \<Rightarrow>
             let notes = map (\<lambda>u. (socket u, UserJoined (length (users rm) + 1))) (users rm);
                 user = \<lparr>socket = sock, room = k, userId = uid\<rparr>;
                 rm' = rm\<lparr>users := users rm @ [user]\<rparr>
             in Some (Inr (s\<lparr>rooms := (rooms s)(k \<mapsto> rm'),
                               allSockets := allSockets s @ [user]\<rparr>,
                           out @ notes @ [(sock, RoomJoined k uid (length (users rm')))],
                           stl rnd))
         | None \<Rightarrow>
             Some (Inr (s, out @ [(sock, ErrorEnv ''Room not found'')], stl rnd))))"

text \<open>
  \<open>const { roomId } = parsedMessage.payload\<close> throws a \<open>TypeError\<close> when the payload is
  \<open>undefined\<close> or \<open>null\<close>.
\<close>

definition joinRoomBranch :: "socket \<Rightarrow> json \<Rightarrow> hstate \<Rightarrow> hstate comp" where
  "joinRoomBranch sock parsedMessage h =
     thenDo (lift (getProp parsedMessage ''payload'')) (\<lambda>payload.
     thenDo (lift (getPropOf payload ''roomId'')) (\<lambda>roomId.
       joinRoomWith sock roomId h))"

text \<open>The \<open>chat\<close> branch once \<open>parsedMessage.payload.message\<close> is evaluated.\<close>

definition chatWith :: "socket \<Rightarrow> json option \<Rightarrow> (nat \<Rightarrow> nat) \<Rightarrow> hstate \<Rightarrow> hstate comp" where
  "chatWith sock message clock h =
     (case h of (s, out, rnd) \<Rightarrow>
        (case find (\<lambda>user. socket user = sock) (allSockets s) of
           None \<Rightarrow> Some (Inr (s, out, rnd))
         | Some user \<Rightarrow>
             (case (if room user \<noteq> [] then rooms s (room user) else None) of
                None \<Rightarrow> Some (Inr (s, out, rnd))
              | Some rm \<Rightarrow>
                  Some (Inr (s,
                             out @ map (\<lambda>(k, u). (socket u, ChatMessage message (userId user) (clock k)))
                                    (enumerate 0 (users rm)),
                             rnd)))))"

definition chatBranch :: "socket \<Rightarrow> json \<Rightarrow> (nat \<Rightarrow> nat) \<Rightarrow> hstate \<Rightarrow> hstate comp" where
  "chatBranch sock parsedMessage clock h =
     thenDo (lift (getProp parsedMessage ''payload'')) (\<lambda>payload.
     thenDo (lift (getPropOf payload ''message'')) (\<lambda>message.
       chatWith sock message clock h))"

definition onMessage ::
  "registry \<Rightarrow> socket \<Rightarrow> inbound \<Rightarrow> draw stream \<Rightarrow> (nat \<Rightarrow> nat) \<Rightarrow> (registry \<times> outbox) comp" where
  "onMessage s sock message rnd clock =
     thenDo (lift (JSON_parse message)) (\<lambda>parsedMessage.
     thenDo (typeIs parsedMessage ''createRoom'') (\<lambda>c1.
     thenDo (if c1 then createRoomBranch sock clock (s, [], rnd) else Some (Inr (s, [], rnd))) (\<lambda>h1.
     thenDo (typeIs parsedMessage ''joinRoom'') (\<lambda>c2.
     thenDo (if c2 then joinRoomBranch sock parsedMessage h1 else Some (Inr h1)) (\<lambda>h2.
     thenDo (typeIs parsedMessage ''chat'') (\<lambda>c3.
     thenDo (if c3 then chatBranch sock parsedMessage clock h2 else Some (Inr h2)) (\<lambda>h3.
       (case h3 of (s', out, rnd') \<Rightarrow> Some (Inr (s', out))))))))))"

section \<open>The close handler\<close>

definition onClose :: "registry \<Rightarrow> socket \<Rightarrow> registry \<times> outbox" where
  "onClose s sock =
     (case findIndex (\<lambda>user. socket user = sock) (allSockets s) of
        None \<Rightarrow> (s, [])
      | Some userIndex \<Rightarrow>
          let user = allSockets s ! userIndex;
              s1 = s\<lparr>allSockets := splice1 userIndex (allSockets s)\<rparr>
          in (case rooms s1 (room user) of
                None \<Rightarrow> (s1, [])
              | Some rm \<Rightarrow>
                  (case findIndex (\<lambda>u. socket u = sock) (users rm) of
                     None \<Rightarrow> (s1, [])
                   | Some roomUserIndex \<Rightarrow>
                       let rm' = rm\<lparr>users := splice1 roomUserIndex (users rm)\<rparr>;
                           notes = map (\<lambda>u. (socket u, UserLeft (length (users rm')))) (users rm')
                       in (if length (users rm') = 0
                           then (s1\<lparr>rooms := (rooms s1)(room user := None)\<rparr>, notes)
                           else (s1\<lparr>rooms := (rooms s1)(room user \<mapsto> rm')\<rparr>, notes)))))"

section \<open>Runs of the server\<close>

text \<open>
  An event is a message on a connection, with the random source and the clock its handler
  reads, or the close of a connection. An uncaught exception ends the run.
\<close>

datatype event =
    MessageEv socket inbound "draw stream" "nat \<Rightarrow> nat"
  | CloseEv socket

fun step :: "registry \<Rightarrow> event \<Rightarrow> (registry \<times> outbox) comp" where
  "step s (MessageEv sock m rnd clock) = onMessage s sock m rnd clock"
| "step s (CloseEv sock) = Some (Inr (onClose s sock))"

fun run :: "registry \<Rightarrow> event list \<Rightarrow> (registry \<times> outbox) comp" where
  "run s [] = Some (Inr (s, []))"
| "run s (e # es) =
     thenDo (step s e) (\<lambda>(s1, out1).
     thenDo (run s1 es) (\<lambda>(s2, out2). Some (Inr (s2, out1 @ out2))))"

text \<open>The envelopes of the API documentation, as \<open>JSON.parse\<close> returns them.\<close>

definition createRoomMsg :: json where
  "createRoomMsg = JObj [(''type'', JStr ''createRoom'')]"

definition joinRoomMsg :: "string \<Rightarrow> json" where
  "joinRoomMsg rid = JObj [(''type'', JStr ''joinRoom''), (''payload'', JObj [(''roomId'', JStr rid)])]"

definition chatMsg :: "string \<Rightarrow> json" where
  "chatMsg txt = JObj [(''type'', JStr ''chat''), (''payload'', JObj [(''message'', JStr txt)])]"


section \<open>Notions used to state the properties\<close>

text \<open>Every draw of the random source is a value of \<open>Math.random()\<close>: a double of \<open>[0, 1)\<close>.\<close>

definition unitDraws :: "draw stream \<Rightarrow> bool" where
  "unitDraws rnd = (\<forall>d\<in>sset rnd. binary64 (val d) \<and> 0 \<le> val d \<and> val d < 1)"

text \<open>
  The shape of \<open>x.toString(36)\<close> for a number \<open>x\<close> in \<open>[0, 1)\<close>: \<open>0\<close> for zero,
  otherwise \<open>0.\<close> followed by at least one digit of \<open>0-9a-z\<close> (no exponent is written in
  a radix other than 10).
\<close>

definition digits36 :: string where
  "digits36 = ''0123456789abcdefghijklmnopqrstuvwxyz''"

definition radix36Rendering :: "string \<Rightarrow> bool" where
  "radix36Rendering t =
     (t = ''0'' \<or> (take 2 t = ''0.'' \<and> drop 2 t \<noteq> [] \<and> set (drop 2 t) \<subseteq> set digits36))"

text \<open>The room identifiers of the \<open>roomCreated\<close> envelopes of an outbox, in order.\<close>

fun createdIds :: "outbox \<Rightarrow> string list" where
  "createdIds [] = []"
| "createdIds ((c, RoomCreated rid uid) # out) = rid # createdIds out"
| "createdIds (x # out) = createdIds out"

text \<open>
  A \<open>createRoom\<close> envelope whose handler reads random numbers of \<open>[0, 1)\<close>, and the
  connection of an event.
\<close>

fun createRoomRequest :: "event \<Rightarrow> bool" where
  "createRoomRequest (MessageEv sock m rnd clock) = (m = Parsed createRoomMsg \<and> unitDraws rnd)"
| "createRoomRequest (CloseEv sock) = False"

fun eventSocket :: "event \<Rightarrow> socket" where
  "eventSocket (MessageEv sock m rnd clock) = sock"
| "eventSocket (CloseEv sock) = sock"

text \<open>Every registered room has a member.\<close>

definition nonEmptyRooms :: "registry \<Rightarrow> bool" where
  "nonEmptyRooms s = (\<forall>rid rm. rooms s rid = Some rm \<longrightarrow> users rm \<noteq> [])"

text \<open>
  The records of a connection in \<open>allSockets\<close>, and the events that can add one: a message
  of the connection whose \<open>type\<close> is \<open>createRoom\<close> or \<open>joinRoom\<close>.
\<close>

definition records :: "socket \<Rightarrow> registry \<Rightarrow> User list" where
  "records c s = filter (\<lambda>u. socket u = c) (allSockets s)"

fun bindRequest :: "socket \<Rightarrow> event \<Rightarrow> bool" where
  "bindRequest c (MessageEv sock (Parsed pm) rnd clock) =
     (sock = c \<and> (getProp pm ''type'' = Inr (Some (JStr ''createRoom'')) \<or>
                 getProp pm ''type'' = Inr (Some (JStr ''joinRoom''))))"
| "bindRequest c e = False"


section \<open>Example inputs\<close>

text \<open>
  Four values of \<open>Math.random()\<close> with their renderings in radix 36 (\<open>0\<close>, \<open>0.5\<close>,
  \<open>0.984375\<close> and \<open>0.25\<close>), and random sources made of them. Their products with 62
  (\<open>0\<close>, \<open>31\<close>, \<open>61.03125\<close> and \<open>15.5\<close>) are doubles.
\<close>

definition d0 :: draw where
  "d0 = \<lparr>val = 0, radix36 = ''0''\<rparr>"

definition dHalf :: draw where
  "dHalf = \<lparr>val = 1 / 2, radix36 = ''0.i''\<rparr>"

definition dHigh :: draw where
  "dHigh = \<lparr>val = 63 / 64, radix36 = ''0.zfr''\<rparr>"

definition dQuarter :: draw where
  "dQuarter = \<lparr>val = 1 / 4, radix36 = ''0.9''\<rparr>"

definition rndA :: "draw stream" where
  "rndA = d0 ## dHalf ## dHigh ## d0 ## d0 ## d0 ## d0 ## d0 ## dHalf ## sconst dQuarter"

definition rndB :: "draw stream" where
  "rndB = dHalf ## d0 ## dHigh ## dHigh ## dHigh ## dHigh ## dHigh ## dHigh ## dHigh ## sconst dQuarter"

text \<open>A source whose first candidate is that of \<open>rndA\<close> and whose second is that of \<open>rndB\<close>.\<close>

definition rndAB :: "draw stream" where
  "rndAB = d0 ## dHalf ## dHigh ## d0 ## d0 ## d0 ## d0 ## d0 ## rndB"

definition rndJ :: "draw stream" where
  "rndJ = sconst dQuarter"

definition clockE :: "nat \<Rightarrow> nat" where
  "clockE k = 1000 + k"

text \<open>
  The registry after connection 10 has created a room with \<open>rndA\<close> (\<open>stateA\<close>), and
  after connection 20 has then joined it with \<open>rndJ\<close> (\<open>stateAB\<close>).
\<close>

definition alice :: User where
  "alice = \<lparr>socket = 10, room = ''Af9AAAAA'', userId = ''i''\<rparr>"

definition bob :: User where
  "bob = \<lparr>socket = 20, room = ''Af9AAAAA'', userId = ''9''\<rparr>"

definition stateA :: registry where
  "stateA = \<lparr>allSockets = [alice],
             rooms = [''Af9AAAAA'' \<mapsto> \<lparr>room_id = ''Af9AAAAA'', users = [alice], createdAt = 1000\<rparr>]\<rparr>"

definition stateAB :: registry where
  "stateAB = \<lparr>allSockets = [alice, bob],
              rooms = [''Af9AAAAA'' \<mapsto> \<lparr>room_id = ''Af9AAAAA'', users = [alice, bob], createdAt = 1000\<rparr>]\<rparr>"

text \<open>
  Registries in which connection 10 is bound twice: after it has created a room with
  \<open>rndA\<close> and joined that room with \<open>rndJ\<close> (\<open>stateSelf\<close>); after it has created a
  room with \<open>rndA\<close> and a second room with \<open>rndB\<close> (\<open>stateTwice\<close>); and after
  connection 20 has then joined the second room with \<open>rndJ\<close> (\<open>stateTwoRooms\<close>).
\<close>

definition alice9 :: User where
  "alice9 = \<lparr>socket = 10, room = ''Af9AAAAA'', userId = ''9''\<rparr>"

definition aliceB :: User where
  "aliceB = \<lparr>socket = 10, room = ''fA999999'', userId = ''zfr''\<rparr>"

definition bobB :: User where
  "bobB = \<lparr>socket = 20, room = ''fA999999'', userId = ''9''\<rparr>"

definition stateSelf :: registry where
  "stateSelf = \<lparr>allSockets = [alice, alice9],
                rooms = [''Af9AAAAA'' \<mapsto> \<lparr>room_id = ''Af9AAAAA'', users = [alice, alice9], createdAt = 1000\<rparr>]\<rparr>"

definition stateTwice :: registry where
  "stateTwice = \<lparr>allSockets = [alice, aliceB],
                 rooms = [''Af9AAAAA'' \<mapsto> \<lparr>room_id = ''Af9AAAAA'', users = [alice], createdAt = 1000\<rparr>,
                          ''fA999999'' \<mapsto> \<lparr>room_id = ''fA999999'', users = [aliceB], createdAt = 1000\<rparr>]\<rparr>"

definition stateTwoRooms :: registry where
  "stateTwoRooms = \<lparr>allSockets = [alice, aliceB, bobB],
                    rooms = [''Af9AAAAA'' \<mapsto> \<lparr>room_id = ''Af9AAAAA'', users = [alice], createdAt = 1000\<rparr>,
                             ''fA999999'' \<mapsto> \<lparr>room_id = ''fA999999'', users = [aliceB, bobB], createdAt = 1000\<rparr>]\<rparr>"

section \<open>Dispatch of the three envelope types\<close>

lemma onMessage_create:
  "onMessage s sock (Parsed createRoomMsg) rnd clock =
     thenDo (createRoomBranch sock clock (s, [], rnd)) (\<lambda>(s', out, rnd'). Some (Inr (s', out)))"
  by (simp add: onMessage_def thenDo_def lift_def JSON_parse_def typeIs_def createRoomMsg_def
      split: option.splits sum.splits prod.splits)

lemma onMessage_join:
  "onMessage s sock (Parsed (joinRoomMsg rid)) rnd clock =
     thenDo (joinRoomBranch sock (joinRoomMsg rid) (s, [], rnd)) (\<lambda>(s', out, rnd'). Some (Inr (s', out)))"
  by (simp add: onMessage_def thenDo_def lift_def JSON_parse_def typeIs_def joinRoomMsg_def
      split: option.splits sum.splits prod.splits)

lemma onMessage_chat:
  "onMessage s sock (Parsed (chatMsg txt)) rnd clock =
     thenDo (chatBranch sock (chatMsg txt) clock (s, [], rnd)) (\<lambda>(s', out, rnd'). Some (Inr (s', out)))"
  by (simp add: onMessage_def thenDo_def lift_def JSON_parse_def typeIs_def chatMsg_def
      split: option.splits sum.splits prod.splits)

lemma onMessage_cases:
  assumes "onMessage s sock m rnd clock = Some (Inr (s', out))"
  obtains (create) pm rnd' where "m = Parsed pm"
      "getProp pm ''type'' = Inr (Some (JStr ''createRoom''))"
      "createRoomBranch sock clock (s, [], rnd) = Some (Inr (s', out, rnd'))"
  | (join) pm rnd' where "m = Parsed pm"
      "getProp pm ''type'' = Inr (Some (JStr ''joinRoom''))"
      "joinRoomBranch sock pm (s, [], rnd) = Some (Inr (s', out, rnd'))"
  | (chat) pm rnd' where "m = Parsed pm"
      "getProp pm ''type'' = Inr (Some (JStr ''chat''))"
      "chatBranch sock pm clock (s, [], rnd) = Some (Inr (s', out, rnd'))"
  | (other) "s' = s" "out = []"
  using assms
  by (auto simp: onMessage_def thenDo_def lift_def JSON_parse_def typeIs_def
      split: option.splits sum.splits prod.splits if_splits inbound.splits)

section \<open>Rounding to a double\<close>

lemma roundEven_int: "roundEven (of_int k) = k"
  by (simp add: roundEven_def)

lemma roundEven_numeral: "roundEven (numeral k) = numeral k"
  using roundEven_int[of "numeral k"] by simp

lemma roundEven_lower: "\<lfloor>x\<rfloor> \<le> roundEven x"
  by (auto simp: roundEven_def Let_def)

lemma roundEven_upper: "roundEven x \<le> \<lfloor>x\<rfloor> + 1"
  by (auto simp: roundEven_def Let_def)

lemma roundEven_mono:
  assumes "x \<le> y"
  shows "roundEven x \<le> roundEven y"
proof (cases "\<lfloor>x\<rfloor> = \<lfloor>y\<rfloor>")
  case True
  with assms have "x - of_int \<lfloor>x\<rfloor> \<le> y - of_int \<lfloor>y\<rfloor>" by simp
  with True show ?thesis by (auto simp: roundEven_def Let_def)
next
  case False
  with floor_mono[OF assms] have "\<lfloor>x\<rfloor> + 1 \<le> \<lfloor>y\<rfloor>" by linarith
  with roundEven_upper[of x] roundEven_lower[of y] show ?thesis by linarith
qed

lemma scaleRound_le: "x \<le> 2 ^ 53 \<Longrightarrow> scaleRound n x \<le> 2 ^ 53"
proof (induction n arbitrary: x)
  case 0
  from roundEven_mono[OF 0] have "roundEven x \<le> 2 ^ 53" by (simp add: roundEven_numeral)
  then have "(of_int (roundEven x) :: rat) \<le> of_int (2 ^ 53)" by (simp only: of_int_le_iff)
  then show ?case by simp
next
  case (Suc n)
  show ?case
  proof (cases "2 ^ 52 \<le> x")
    case True
    from roundEven_mono[OF Suc.prems] have "roundEven x \<le> 2 ^ 53" by (simp add: roundEven_numeral)
    then have "(of_int (roundEven x) :: rat) \<le> of_int (2 ^ 53)" by (simp only: of_int_le_iff)
    with True show ?thesis by simp
  next
    case False
    then have "2 * x \<le> 2 ^ 53" by simp
    from Suc.IH[OF this] False show ?thesis by simp
  qed
qed

lemma scaleRound_mono: "x \<le> y \<Longrightarrow> scaleRound n x \<le> scaleRound n y"
proof (induction n arbitrary: x y)
  case 0
  then show ?case by (simp add: roundEven_mono)
next
  case (Suc n)
  show ?case
  proof (cases "2 ^ 52 \<le> x")
    case True
    with Suc.prems have "2 ^ 52 \<le> y" by simp
    with True Suc.prems show ?thesis by (simp add: roundEven_mono)
  next
    case False
    show ?thesis
    proof (cases "2 ^ 52 \<le> y")
      case True
      from False have "2 * x \<le> 2 ^ 53" by simp
      from scaleRound_le[OF this] have a: "scaleRound n (2 * x) / 2 \<le> 2 ^ 52" by simp
      from roundEven_mono[OF True] have "2 ^ 52 \<le> roundEven y" by (simp add: roundEven_numeral)
      then have "(of_int (2 ^ 52) :: rat) \<le> of_int (roundEven y)" by (simp only: of_int_le_iff)
      then have "(2 ^ 52 :: rat) \<le> of_int (roundEven y)" by simp
      with a have "scaleRound n (2 * x) / 2 \<le> of_int (roundEven y)" by linarith
      with False True show ?thesis by simp
    next
      case nb: False
      from Suc.prems have "2 * x \<le> 2 * y" by simp
      from Suc.IH[OF this] False nb show ?thesis by simp
    qed
  qed
qed

lemma scaleRound_zero: "scaleRound n 0 = 0"
  by (induction n) (simp_all add: roundEven_def)

lemma scaleRound_at:
  "2 ^ 52 \<le> x * 2 ^ k \<Longrightarrow> x * 2 ^ k < 2 ^ 53 \<Longrightarrow> k \<le> n \<Longrightarrow>
   scaleRound n x = of_int (roundEven (x * 2 ^ k)) / 2 ^ k"
proof (induction k arbitrary: n x)
  case 0
  then show ?case by (cases n) simp_all
next
  case (Suc k)
  from Suc.prems(3) obtain n' where n: "n = Suc n'" "k \<le> n'" by (cases n) simp_all
  have small: "\<not> 2 ^ 52 \<le> x"
  proof
    assume b: "2 ^ 52 \<le> x"
    then have "0 \<le> x" by simp
    moreover have "(1::rat) \<le> 2 ^ k" by simp
    ultimately have "x * 1 \<le> x * 2 ^ k" by (rule mult_left_mono[rotated])
    then have "2 * x \<le> x * 2 ^ Suc k" by simp
    from this Suc.prems(2) have "2 * x < 2 ^ 53" by (rule le_less_trans)
    with b show False by simp
  qed
  from Suc.prems have "2 ^ 52 \<le> (2 * x) * 2 ^ k" "(2 * x) * 2 ^ k < 2 ^ 53"
    by (simp_all add: mult.assoc mult.left_commute)
  from Suc.IH[OF this n(2)] small n(1) show ?case
    by (simp add: mult.assoc mult.left_commute)
qed

lemma toDouble_mono: "x \<le> y \<Longrightarrow> toDouble x \<le> toDouble y"
  by (simp add: toDouble_def scaleRound_mono)

lemma toDouble_zero: "toDouble 0 = 0"
  by (simp add: toDouble_def scaleRound_zero)

lemma toDouble_at:
  "2 ^ 52 \<le> x * 2 ^ k \<Longrightarrow> x * 2 ^ k < 2 ^ 53 \<Longrightarrow> k \<le> 1074 \<Longrightarrow>
   toDouble x = of_int (roundEven (x * 2 ^ k)) / 2 ^ k"
  unfolding toDouble_def by (rule scaleRound_at)

text \<open>A double below 1 is at most \<open>1 - 2 ^ -53\<close>.\<close>

lemma binary64_below_one:
  assumes "binary64 x" "x < 1"
  shows "x \<le> 1 - 1 / 2 ^ 53"
proof (rule ccontr)
  assume "\<not> x \<le> 1 - 1 / 2 ^ 53"
  then have lo: "2 ^ 53 - 1 < x * 2 ^ 53" by (simp add: field_simps)
  from assms(2) have hi: "x * 2 ^ 53 < 2 ^ 53" by simp
  from lo have "2 ^ 52 \<le> x * 2 ^ 53" by simp
  from toDouble_at[OF this hi] assms(1) have "x = of_int (roundEven (x * 2 ^ 53)) / 2 ^ 53"
    by (simp add: binary64_def)
  then have "x * 2 ^ 53 = of_int (roundEven (x * 2 ^ 53))" by simp
  with lo hi have "(2 ^ 53 - 1 :: rat) < of_int (roundEven (x * 2 ^ 53))"
    "(of_int (roundEven (x * 2 ^ 53)) :: rat) < 2 ^ 53" by simp_all
  then have "of_int (2 ^ 53 - 1) < (of_int (roundEven (x * 2 ^ 53)) :: rat)"
    "(of_int (roundEven (x * 2 ^ 53)) :: rat) < of_int (2 ^ 53)" by simp_all
  then have "2 ^ 53 - 1 < roundEven (x * 2 ^ 53)" "roundEven (x * 2 ^ 53) < 2 ^ 53"
    by (simp_all only: of_int_less_iff)
  then show False by simp
qed

lemma top62: "toDouble ((1 - 1 / 2 ^ 53) * 62) < 62"
proof -
  have f: "\<lfloor>(1 - 1 / 2 ^ 53 :: rat) * 62 * 2 ^ 47\<rfloor> = 62 * 2 ^ 47 - 1"
    by (simp add: floor_eq_iff)
  have "roundEven ((1 - 1 / 2 ^ 53) * 62 * 2 ^ 47) = 62 * 2 ^ 47 - 1"
    unfolding roundEven_def f by simp
  moreover have "toDouble ((1 - 1 / 2 ^ 53) * 62) =
      of_int (roundEven ((1 - 1 / 2 ^ 53) * 62 * 2 ^ 47)) / 2 ^ 47"
    by (rule toDouble_at) simp_all
  ultimately show ?thesis by simp
qed

lemma top26: "toDouble ((1 - 1 / 2 ^ 53) * 26) < 26"
proof -
  have f: "\<lfloor>(1 - 1 / 2 ^ 53 :: rat) * 26 * 2 ^ 48\<rfloor> = 26 * 2 ^ 48 - 1"
    by (simp add: floor_eq_iff)
  have "roundEven ((1 - 1 / 2 ^ 53) * 26 * 2 ^ 48) = 26 * 2 ^ 48 - 1"
    unfolding roundEven_def f by simp
  moreover have "toDouble ((1 - 1 / 2 ^ 53) * 26) =
      of_int (roundEven ((1 - 1 / 2 ^ 53) * 26 * 2 ^ 48)) / 2 ^ 48"
    by (rule toDouble_at) simp_all
  ultimately show ?thesis by simp
qed

lemma top10: "toDouble ((1 - 1 / 2 ^ 53) * 10) < 10"
proof -
  have f: "\<lfloor>(1 - 1 / 2 ^ 53 :: rat) * 10 * 2 ^ 49\<rfloor> = 10 * 2 ^ 49 - 1"
    by (simp add: floor_eq_iff)
  have "roundEven ((1 - 1 / 2 ^ 53) * 10 * 2 ^ 49) = 10 * 2 ^ 49 - 1"
    unfolding roundEven_def f by simp
  moreover have "toDouble ((1 - 1 / 2 ^ 53) * 10) =
      of_int (roundEven ((1 - 1 / 2 ^ 53) * 10 * 2 ^ 49)) / 2 ^ 49"
    by (rule toDouble_at) simp_all
  ultimately show ?thesis by simp
qed

text \<open>
  The product of a double of \<open>[0, 1)\<close> with \<open>n\<close> rounds to a double below \<open>n\<close> when the
  product of the largest such double does, so its floor is an index below \<open>n\<close>.
\<close>

lemma fmul_range:
  assumes "binary64 v" "0 \<le> v" "v < 1" "0 \<le> n"
    and top: "toDouble ((1 - 1 / 2 ^ 53) * n) < of_int k"
  shows "0 \<le> \<lfloor>fmul v n\<rfloor> \<and> \<lfloor>fmul v n\<rfloor> < k"
proof
  from assms(2,4) have "0 \<le> v * n" by simp
  from toDouble_mono[OF this] have "0 \<le> fmul v n" by (simp add: toDouble_zero fmul_def)
  then show "0 \<le> \<lfloor>fmul v n\<rfloor>" by simp
  from binary64_below_one[OF assms(1,3)] assms(4) have "v * n \<le> (1 - 1 / 2 ^ 53) * n"
    by (rule mult_right_mono)
  from toDouble_mono[OF this] top have "fmul v n < of_int k" by (simp add: fmul_def)
  then show "\<lfloor>fmul v n\<rfloor> < k" by (simp add: floor_less_iff)
qed

text \<open>The doubles of the examples and their products with 62.\<close>

lemma toDouble_31: "toDouble 31 = 31"
  using toDouble_at[of 31 48] by (simp add: roundEven_numeral)

lemma toDouble_1953_32: "toDouble (1953 / 32) = 1953 / 32"
  using toDouble_at[of "1953 / 32" 47] by (simp add: roundEven_numeral)

lemma binary64_examples: "binary64 0" "binary64 (1 / 2)" "binary64 (63 / 64)" "binary64 (1 / 4)"
  using toDouble_at[of "1 / 2" 53] toDouble_at[of "63 / 64" 53] toDouble_at[of "1 / 4" 54]
  by (simp_all add: binary64_def toDouble_zero roundEven_numeral)

text \<open>
  Two products that are not doubles and round up to an integer: the floor of the rounded
  product (16, 7) is one more than the floor of the exact product.
\<close>

lemma fmul_rounds_up:
  "\<lfloor>fmul (1162219258676257 / 2 ^ 52) 62\<rfloor> = 16"
  "\<lfloor>(1162219258676257 / 2 ^ 52 :: rat) * 62\<rfloor> = 15"
  "\<lfloor>fmul (3152519739159347 / 2 ^ 52) 10\<rfloor> = 7"
  "\<lfloor>(3152519739159347 / 2 ^ 52 :: rat) * 10\<rfloor> = 6"
proof -
  have f1: "\<lfloor>(1162219258676257 / 2 ^ 52 :: rat) * 62 * 2 ^ 49\<rfloor> = 2 ^ 53 - 1"
    by (simp add: floor_eq_iff)
  have "roundEven (1162219258676257 / 2 ^ 52 * 62 * 2 ^ 49) = 2 ^ 53"
    unfolding roundEven_def f1 by simp
  moreover have "toDouble (1162219258676257 / 2 ^ 52 * 62) =
      of_int (roundEven (1162219258676257 / 2 ^ 52 * 62 * 2 ^ 49)) / 2 ^ 49"
    by (rule toDouble_at) simp_all
  ultimately show "\<lfloor>fmul (1162219258676257 / 2 ^ 52) 62\<rfloor> = 16" by (simp add: fmul_def)
  have f2: "\<lfloor>(3152519739159347 / 2 ^ 52 :: rat) * 10 * 2 ^ 50\<rfloor> = 7 * 2 ^ 50 - 1"
    by (simp add: floor_eq_iff)
  have "roundEven (3152519739159347 / 2 ^ 52 * 10 * 2 ^ 50) = 7 * 2 ^ 50"
    unfolding roundEven_def f2 by simp
  moreover have "toDouble (3152519739159347 / 2 ^ 52 * 10) =
      of_int (roundEven (3152519739159347 / 2 ^ 52 * 10 * 2 ^ 50)) / 2 ^ 50"
    by (rule toDouble_at) simp_all
  ultimately show "\<lfloor>fmul (3152519739159347 / 2 ^ 52) 10\<rfloor> = 7" by (simp add: fmul_def)
  show "\<lfloor>(1162219258676257 / 2 ^ 52 :: rat) * 62\<rfloor> = 15"
    "\<lfloor>(3152519739159347 / 2 ^ 52 :: rat) * 10\<rfloor> = 6"
    by (simp_all add: floor_eq_iff)
qed

section \<open>Evaluation of the example inputs\<close>

lemma example_draws:
  "val d0 = 0" "radix36 d0 = ''0''"
  "val dHalf = 1 / 2" "radix36 dHalf = ''0.i''"
  "val dHigh = 63 / 64" "radix36 dHigh = ''0.zfr''"
  "val dQuarter = 1 / 4" "radix36 dQuarter = ''0.9''"
  by (simp_all add: d0_def dHalf_def dHigh_def dQuarter_def)

lemma unitDraws_SCons:
  "unitDraws (d ## rnd) = (binary64 (val d) \<and> 0 \<le> val d \<and> val d < 1 \<and> unitDraws rnd)"
  by (auto simp: unitDraws_def)

lemma unitDraws_sconst: "unitDraws (sconst d) = (binary64 (val d) \<and> 0 \<le> val d \<and> val d < 1)"
  by (simp add: unitDraws_def)

lemma unitDraws_examples: "unitDraws rndA" "unitDraws rndB" "unitDraws rndAB" "unitDraws rndJ"
  by (simp_all add: rndA_def rndB_def rndAB_def rndJ_def unitDraws_SCons unitDraws_sconst
      example_draws binary64_examples)

lemma floor_1953_32: "\<lfloor>(1953::rat) / 32\<rfloor> = 61"
  by (simp add: floor_eq_iff)

lemmas candidate_eval =
  roomIdCandidate_def chars_def charAt_def has_upper_def has_lower_def has_digit_def
  substring_from_def substring_def eval_nat_numeral example_draws floor_1953_32
  fmul_def toDouble_zero toDouble_31 toDouble_1953_32

lemma candidate_rndA:
  "roomIdCandidate (d0 ## dHalf ## dHigh ## d0 ## d0 ## d0 ## d0 ## d0 ## dHalf ## sconst dQuarter)
     = (''Af9AAAAA'', dHalf ## sconst dQuarter)"
  by (simp add: candidate_eval)

lemma candidate_rndB:
  "roomIdCandidate (dHalf ## d0 ## dHigh ## dHigh ## dHigh ## dHigh ## dHigh ## dHigh ## dHigh ## sconst dQuarter)
     = (''fA999999'', dHigh ## sconst dQuarter)"
  by (simp add: candidate_eval)

lemma generateRoomId_rndA:
  "rms ''Af9AAAAA'' = None \<Longrightarrow> generateRoomId rms rndA = Some (''Af9AAAAA'', dHalf ## sconst dQuarter)"
  by (simp add: rndA_def generateRoomId.simps candidate_rndA)

lemma generateRoomId_rndB:
  "rms ''fA999999'' = None \<Longrightarrow> generateRoomId rms rndB = Some (''fA999999'', dHigh ## sconst dQuarter)"
  by (simp add: rndB_def generateRoomId.simps candidate_rndB)

lemma candidate_rndAB:
  "roomIdCandidate (d0 ## dHalf ## dHigh ## d0 ## d0 ## d0 ## d0 ## d0 ## rnd)
     = (''Af9AAAAA'', rnd)"
  by (simp add: candidate_eval)

lemma candidate_rndAB_folded: "roomIdCandidate rndAB = (''Af9AAAAA'', rndB)"
  by (simp add: rndAB_def candidate_rndAB)

lemma generateRoomId_rndAB:
  "rms ''Af9AAAAA'' \<noteq> None \<Longrightarrow> rms ''fA999999'' = None \<Longrightarrow>
   generateRoomId rms rndAB = Some (''fA999999'', dHigh ## sconst dQuarter)"
  unfolding rndAB_def
  by (subst generateRoomId.simps) (simp add: candidate_rndAB generateRoomId_rndB)

lemma generateUserId_examples:
  "generateUserId d0 = []" "generateUserId dHalf = ''i''"
  "generateUserId dHigh = ''zfr''" "generateUserId dQuarter = ''9''"
  by (simp_all add: generateUserId_def substring_def example_draws)

section \<open>Properties of the identifier generators\<close>

lemma unitDraws_stl: "unitDraws rnd \<Longrightarrow> unitDraws (stl rnd)"
  by (auto simp: unitDraws_def dest: stl_sset)

lemma substring_from_drop: "substring_from s k = drop k s"
  by (simp add: substring_from_def substring_def Let_def min_def max_def)

lemma charAt_set: "set (charAt s i) \<subseteq> set s"
  by (auto simp: charAt_def nat_less_iff)

lemma charAt_in_range: "0 \<le> i \<Longrightarrow> i < int (length s) \<Longrightarrow> length (charAt s i) = 1"
  by (simp add: charAt_def)

lemma length_chars: "length chars = 62"
  by (simp add: chars_def)

lemma unitDraws_shd:
  "unitDraws rnd \<Longrightarrow> binary64 (val (shd rnd)) \<and> 0 \<le> val (shd rnd) \<and> val (shd rnd) < 1"
  by (simp add: unitDraws_def shd_sset)

lemma pick_any:
  assumes "unitDraws rnd"
  shows "length (charAt chars \<lfloor>fmul (val (shd rnd)) (of_nat (length chars))\<rfloor>) = 1"
proof -
  have "0 \<le> \<lfloor>fmul (val (shd rnd)) 62\<rfloor> \<and> \<lfloor>fmul (val (shd rnd)) 62\<rfloor> < 62"
    using unitDraws_shd[OF assms] top62 by (intro fmul_range) simp_all
  then show ?thesis by (simp add: length_chars charAt_in_range)
qed

lemma pick_upper:
  assumes "unitDraws rnd"
  shows "length (charAt chars \<lfloor>fmul (val (shd rnd)) 26\<rfloor>) = 1"
proof -
  have "0 \<le> \<lfloor>fmul (val (shd rnd)) 26\<rfloor> \<and> \<lfloor>fmul (val (shd rnd)) 26\<rfloor> < 26"
    using unitDraws_shd[OF assms] top26 by (intro fmul_range) simp_all
  then show ?thesis by (simp add: length_chars charAt_in_range)
qed

lemma pick_lower:
  assumes "unitDraws rnd"
  shows "length (charAt chars (26 + \<lfloor>fmul (val (shd rnd)) 26\<rfloor>)) = 1"
proof -
  have "0 \<le> \<lfloor>fmul (val (shd rnd)) 26\<rfloor> \<and> \<lfloor>fmul (val (shd rnd)) 26\<rfloor> < 26"
    using unitDraws_shd[OF assms] top26 by (intro fmul_range) simp_all
  then show ?thesis by (simp add: length_chars charAt_in_range)
qed

lemma pick_digit:
  assumes "unitDraws rnd"
  shows "length (charAt chars (52 + \<lfloor>fmul (val (shd rnd)) 10\<rfloor>)) = 1"
proof -
  have "0 \<le> \<lfloor>fmul (val (shd rnd)) 10\<rfloor> \<and> \<lfloor>fmul (val (shd rnd)) 10\<rfloor> < 10"
    using unitDraws_shd[OF assms] top10 by (intro fmul_range) simp_all
  then show ?thesis by (simp add: length_chars charAt_in_range)
qed

lemma roomIdLoop_props:
  assumes "unitDraws rnd" "roomIdLoop n result rnd = (r, rnd')"
  shows "length r = length result + n \<and> set r \<subseteq> set result \<union> set chars \<and> unitDraws rnd'"
  using assms
proof (induction n arbitrary: result rnd)
  case 0
  then show ?case by simp
next
  case (Suc n)
  let ?c = "charAt chars \<lfloor>fmul (val (shd rnd)) (of_nat (length chars))\<rfloor>"
  from Suc.prems have step: "roomIdLoop n (result @ ?c) (stl rnd) = (r, rnd')" by simp
  have "length r = length (result @ ?c) + n \<and> set r \<subseteq> set (result @ ?c) \<union> set chars \<and> unitDraws rnd'"
    using Suc.IH[OF unitDraws_stl[OF Suc.prems(1)] step] .
  moreover have "length ?c = 1" using Suc.prems(1) by (rule pick_any)
  moreover have "set ?c \<subseteq> set chars" by (rule charAt_set)
  ultimately show ?case by auto
qed

lemma fixup_props:
  assumes "length r = 8" "set r \<subseteq> set chars" "length c = 1" "set c \<subseteq> set chars"
  shows "length (substring_from r 1 @ c) = 8 \<and> set (substring_from r 1 @ c) \<subseteq> set chars"
  using assms by (auto simp: substring_from_drop dest: in_set_dropD)

lemma roomIdCandidate_props:
  assumes "unitDraws rnd" "roomIdCandidate rnd = (r, rnd')"
  shows "length r = 8 \<and> set r \<subseteq> set chars \<and> unitDraws rnd'"
proof -
  obtain r1 rnd1 where l: "roomIdLoop 8 [] rnd = (r1, rnd1)" by fastforce
  have p1: "length r1 = 8 \<and> set r1 \<subseteq> set chars \<and> unitDraws rnd1"
    using roomIdLoop_props[OF assms(1) l] by simp
  define r2 where "r2 = (if \<not> has_upper r1
    then substring_from r1 1 @ charAt chars \<lfloor>fmul (val (shd rnd1)) 26\<rfloor> else r1)"
  define rnd2 where "rnd2 = (if \<not> has_upper r1 then stl rnd1 else rnd1)"
  have p2: "length r2 = 8 \<and> set r2 \<subseteq> set chars \<and> unitDraws rnd2"
    using p1 fixup_props[OF _ _ pick_upper charAt_set, of r1 rnd1] unitDraws_stl
    by (simp add: r2_def rnd2_def)
  define r3 where "r3 = (if \<not> has_lower r2
    then substring_from r2 1 @ charAt chars (26 + \<lfloor>fmul (val (shd rnd2)) 26\<rfloor>) else r2)"
  define rnd3 where "rnd3 = (if \<not> has_lower r2 then stl rnd2 else rnd2)"
  have p3: "length r3 = 8 \<and> set r3 \<subseteq> set chars \<and> unitDraws rnd3"
    using p2 fixup_props[OF _ _ pick_lower charAt_set, of r2 rnd2] unitDraws_stl
    by (simp add: r3_def rnd3_def)
  define r4 where "r4 = (if \<not> has_digit r3
    then substring_from r3 1 @ charAt chars (52 + \<lfloor>fmul (val (shd rnd3)) 10\<rfloor>) else r3)"
  define rnd4 where "rnd4 = (if \<not> has_digit r3 then stl rnd3 else rnd3)"
  have p4: "length r4 = 8 \<and> set r4 \<subseteq> set chars \<and> unitDraws rnd4"
    using p3 fixup_props[OF _ _ pick_digit charAt_set, of r3 rnd3] unitDraws_stl
    by (simp add: r4_def rnd4_def)
  have "roomIdCandidate rnd = (r4, rnd4)"
    by (simp add: roomIdCandidate_def l r2_def rnd2_def r3_def rnd3_def r4_def rnd4_def)
  with assms(2) p4 show ?thesis by simp
qed

lemma generateRoomId_props_aux:
  assumes "generateRoomId rms rnd = Some y"
  shows "rms (fst y) = None \<and>
         (unitDraws rnd \<longrightarrow> length (fst y) = 8 \<and> set (fst y) \<subseteq> set chars \<and> unitDraws (snd y))"
  using assms
proof (induction rms rnd y rule: generateRoomId.raw_induct[rotated 1, consumes 1])
  case (1 gen rms rnd y)
  obtain r rnd1 where c: "roomIdCandidate rnd = (r, rnd1)" by fastforce
  show ?case
  proof (cases "rms r \<noteq> None")
    case True
    with 1(2) c have "gen rms rnd1 = Some y" by simp
    from 1(1)[OF this] roomIdCandidate_props[OF _ c] show ?thesis by blast
  next
    case False
    with 1(2) c have "y = (r, rnd1)" by simp
    with False roomIdCandidate_props[OF _ c] show ?thesis by auto
  qed
qed

lemma generateRoomId_props:
  assumes "generateRoomId rms rnd = Some (rid, rnd')"
  shows "rms rid = None \<and>
         (unitDraws rnd \<longrightarrow> length rid = 8 \<and> set rid \<subseteq> set chars \<and> unitDraws rnd')"
  using generateRoomId_props_aux[OF assms] by simp

section \<open>What a \<open>createRoom\<close> request returns\<close>

lemma createRoomBranch_Some:
  assumes "createRoomBranch sock clock (s, out, rnd) = Some (Inr (s', out', rnd'))"
  shows "\<exists>rid rnd1. generateRoomId (rooms s) rnd = Some (rid, rnd1) \<and>
           s' = s\<lparr>rooms := (rooms s)(rid \<mapsto>
                     \<lparr>room_id = rid,
                      users = [\<lparr>socket = sock, room = rid, userId = generateUserId (shd rnd1)\<rparr>],
                      createdAt = clock 0\<rparr>),
                   allSockets := allSockets s @
                     [\<lparr>socket = sock, room = rid, userId = generateUserId (shd rnd1)\<rparr>]\<rparr> \<and>
           out' = out @ [(sock, RoomCreated rid (generateUserId (shd rnd1)))] \<and> rnd' = stl rnd1"
  using assms by (auto simp: createRoomBranch_def Let_def split: option.splits)

lemma create_step:
  assumes "onMessage s sock (Parsed createRoomMsg) rnd clock = Some (Inr (s1, out1))"
  shows "\<exists>rid uid rm. out1 = [(sock, RoomCreated rid uid)] \<and> rooms s rid = None \<and>
           rooms s1 = (rooms s)(rid \<mapsto> rm) \<and>
           (unitDraws rnd \<longrightarrow> length rid = 8 \<and> set rid \<subseteq> set chars)"
proof -
  from assms obtain rnd' where
    "createRoomBranch sock clock (s, [], rnd) = Some (Inr (s1, out1, rnd'))"
    by (auto simp: onMessage_create thenDo_def split: option.splits sum.splits)
  from createRoomBranch_Some[OF this] obtain rid rnd1 where
    g: "generateRoomId (rooms s) rnd = Some (rid, rnd1)"
    and s1: "s1 = s\<lparr>rooms := (rooms s)(rid \<mapsto>
                     \<lparr>room_id = rid,
                      users = [\<lparr>socket = sock, room = rid, userId = generateUserId (shd rnd1)\<rparr>],
                      createdAt = clock 0\<rparr>),
                   allSockets := allSockets s @
                     [\<lparr>socket = sock, room = rid, userId = generateUserId (shd rnd1)\<rparr>]\<rparr>"
    and out1: "out1 = [] @ [(sock, RoomCreated rid (generateUserId (shd rnd1)))]"
    by blast
  from generateRoomId_props[OF g] s1 out1 show ?thesis by auto
qed

lemma run_create_only:
  assumes "\<forall>e\<in>set evs. createRoomRequest e" "run s evs = Some (Inr (s', out))"
  shows "map fst out = map eventSocket evs \<and> length (createdIds out) = length evs \<and>
         distinct (createdIds out) \<and>
         (\<forall>rid\<in>set (createdIds out).
            length rid = 8 \<and> set rid \<subseteq> set chars \<and> rooms s rid = None \<and> rooms s' rid \<noteq> None) \<and>
         dom (rooms s) \<subseteq> dom (rooms s')"
  using assms
proof (induction evs arbitrary: s out)
  case Nil
  then show ?case by simp
next
  case (Cons e evs)
  from Cons.prems(1) obtain sock rnd clock where
    e: "e = MessageEv sock (Parsed createRoomMsg) rnd clock" and u: "unitDraws rnd"
    by (cases e) auto
  from Cons.prems(2) e obtain s1 out1 out2 where
    st: "onMessage s sock (Parsed createRoomMsg) rnd clock = Some (Inr (s1, out1))"
    and rn: "run s1 evs = Some (Inr (s', out2))" and out: "out = out1 @ out2"
    by (auto simp: thenDo_def split: option.splits sum.splits)
  from create_step[OF st] u obtain rid uid rm where
    o1: "out1 = [(sock, RoomCreated rid uid)]" and fresh: "rooms s rid = None"
    and r1: "rooms s1 = (rooms s)(rid \<mapsto> rm)"
    and fmt: "length rid = 8 \<and> set rid \<subseteq> set chars"
    by blast
  from Cons.prems(1) have "\<forall>e\<in>set evs. createRoomRequest e" by simp
  from Cons.IH[OF this rn] have ih:
    "map fst out2 = map eventSocket evs" "length (createdIds out2) = length evs"
    "distinct (createdIds out2)"
    "\<forall>rid\<in>set (createdIds out2).
       length rid = 8 \<and> set rid \<subseteq> set chars \<and> rooms s1 rid = None \<and> rooms s' rid \<noteq> None"
    "dom (rooms s1) \<subseteq> dom (rooms s')"
    by simp_all
  have ids: "createdIds out = rid # createdIds out2"
    by (simp add: out o1)
  have "rid \<notin> set (createdIds out2)" using ih(4) r1 by auto
  moreover have "rooms s' rid \<noteq> None" using ih(5) r1 by auto
  moreover have "\<forall>x\<in>set (createdIds out2). rooms s x = None"
    using ih(4) r1 by (auto split: if_splits)
  moreover have "dom (rooms s) \<subseteq> dom (rooms s')" using ih(5) r1 by auto
  ultimately show ?case
    using ih fresh fmt by (simp add: ids out o1 e)
qed

lemma create_rndA:
  "rooms s ''Af9AAAAA'' = None \<Longrightarrow>
   onMessage s sock (Parsed createRoomMsg) rndA clock =
     Some (Inr (s\<lparr>rooms := (rooms s)(''Af9AAAAA'' \<mapsto>
                       \<lparr>room_id = ''Af9AAAAA'',
                        users = [\<lparr>socket = sock, room = ''Af9AAAAA'', userId = ''i''\<rparr>],
                        createdAt = clock 0\<rparr>),
                   allSockets := allSockets s @ [\<lparr>socket = sock, room = ''Af9AAAAA'', userId = ''i''\<rparr>]\<rparr>,
                [(sock, RoomCreated ''Af9AAAAA'' ''i'')]))"
  by (simp add: onMessage_create createRoomBranch_def generateRoomId_rndA thenDo_def
      generateUserId_examples Let_def)

lemma create_rndB:
  "rooms s ''fA999999'' = None \<Longrightarrow>
   onMessage s sock (Parsed createRoomMsg) rndB clock =
     Some (Inr (s\<lparr>rooms := (rooms s)(''fA999999'' \<mapsto>
                       \<lparr>room_id = ''fA999999'',
                        users = [\<lparr>socket = sock, room = ''fA999999'', userId = ''zfr''\<rparr>],
                        createdAt = clock 0\<rparr>),
                   allSockets := allSockets s @ [\<lparr>socket = sock, room = ''fA999999'', userId = ''zfr''\<rparr>]\<rparr>,
                [(sock, RoomCreated ''fA999999'' ''zfr'')]))"
  by (simp add: onMessage_create createRoomBranch_def generateRoomId_rndB thenDo_def
      generateUserId_examples Let_def)

section \<open>Room identifiers\<close>

text \<open>
  C3. An identifier that \<open>generateRoomId\<close> returns has 8 characters, all of the alphabet
  \<open>chars\<close> (\<open>A-Z\<close>, \<open>a-z\<close>, \<open>0-9\<close>), and is not a key of the room mapping it was called
  with; a candidate that is a key is discarded and the generator runs again on the rest of
  the random source. A \<open>createRoom\<close> request that returns answers with one \<open>roomCreated\<close>
  envelope to its sender, whose identifier was not registered before the request and is
  registered after it, whatever the registry was. In a run of \<open>createRoom\<close> requests alone
  (during which no room is removed) the identifiers of these envelopes are pairwise
  distinct, each has that format, was not registered before the run and is registered after
  it. The random numbers are doubles of \<open>[0, 1)\<close>, as \<open>Math.random()\<close> gives them, and
  their products are rounded to doubles before \<open>Math.floor\<close>.
\<close>

theorem room_identifiers_fresh:
  "(unitDraws rnd \<and> generateRoomId rms rnd = Some (rid, rnd') \<longrightarrow>
      length rid = 8 \<and> set rid \<subseteq> set chars \<and> rms rid = None) \<and>
   (roomIdCandidate src = (cand, rest) \<longrightarrow>
      generateRoomId reg src =
        (if reg cand \<noteq> None then generateRoomId reg rest else Some (cand, rest))) \<and>
   (onMessage before sock (Parsed createRoomMsg) rndc clock = Some (Inr (after, sent)) \<longrightarrow>
      (\<exists>r uid. sent = [(sock, RoomCreated r uid)] \<and> rooms before r = None \<and> rooms after r \<noteq> None \<and>
         (unitDraws rndc \<longrightarrow> length r = 8 \<and> set r \<subseteq> set chars))) \<and>
   ((\<forall>e\<in>set evs. createRoomRequest e) \<and> run s evs = Some (Inr (s', out)) \<longrightarrow>
      map fst out = map eventSocket evs \<and> length (createdIds out) = length evs \<and>
      distinct (createdIds out) \<and>
      (\<forall>r\<in>set (createdIds out).
         length r = 8 \<and> set r \<subseteq> set chars \<and> rooms s r = None \<and> rooms s' r \<noteq> None))"
proof -
  have p1: "unitDraws rnd \<and> generateRoomId rms rnd = Some (rid, rnd') \<longrightarrow>
      length rid = 8 \<and> set rid \<subseteq> set chars \<and> rms rid = None"
    using generateRoomId_props[of rms rnd rid rnd'] by blast
  have p2: "roomIdCandidate src = (cand, rest) \<longrightarrow>
      generateRoomId reg src =
        (if reg cand \<noteq> None then generateRoomId reg rest else Some (cand, rest))"
  proof
    assume c: "roomIdCandidate src = (cand, rest)"
    show "generateRoomId reg src =
        (if reg cand \<noteq> None then generateRoomId reg rest else Some (cand, rest))"
      by (subst generateRoomId.simps) (simp add: c)
  qed
  have p3: "onMessage before sock (Parsed createRoomMsg) rndc clock = Some (Inr (after, sent)) \<longrightarrow>
      (\<exists>r uid. sent = [(sock, RoomCreated r uid)] \<and> rooms before r = None \<and> rooms after r \<noteq> None \<and>
         (unitDraws rndc \<longrightarrow> length r = 8 \<and> set r \<subseteq> set chars))"
  proof
    assume "onMessage before sock (Parsed createRoomMsg) rndc clock = Some (Inr (after, sent))"
    from create_step[OF this] obtain r uid rm where
      "sent = [(sock, RoomCreated r uid)]" "rooms before r = None" "rooms after = (rooms before)(r \<mapsto> rm)"
      "unitDraws rndc \<longrightarrow> length r = 8 \<and> set r \<subseteq> set chars"
      by blast
    then show "\<exists>r uid. sent = [(sock, RoomCreated r uid)] \<and> rooms before r = None \<and>
         rooms after r \<noteq> None \<and> (unitDraws rndc \<longrightarrow> length r = 8 \<and> set r \<subseteq> set chars)"
      by auto
  qed
  have p4: "(\<forall>e\<in>set evs. createRoomRequest e) \<and> run s evs = Some (Inr (s', out)) \<longrightarrow>
      map fst out = map eventSocket evs \<and> length (createdIds out) = length evs \<and>
      distinct (createdIds out) \<and>
      (\<forall>r\<in>set (createdIds out).
         length r = 8 \<and> set r \<subseteq> set chars \<and> rooms s r = None \<and> rooms s' r \<noteq> None)"
    using run_create_only[of evs s s' out] by blast
  show ?thesis by (rule conjI[OF p1 conjI[OF p2 conjI[OF p3 p4]]])
qed

text \<open>
  At the example inputs: \<open>rndA\<close> on the empty mapping; \<open>rndAB\<close> on \<open>stateA\<close>, where its first
  candidate \<open>Af9AAAAA\<close> is registered and the identifier returned is the second candidate;
  a \<open>createRoom\<close> on \<open>stateA\<close>; a run of two \<open>createRoom\<close> requests.
\<close>

theorem room_identifiers_fresh_witness:
  "unitDraws rndA \<and>
   generateRoomId Map.empty rndA = Some (''Af9AAAAA'', dHalf ## sconst dQuarter) \<and>
   length ''Af9AAAAA'' = 8 \<and> set ''Af9AAAAA'' \<subseteq> set chars \<and>
   roomIdCandidate rndAB = (''Af9AAAAA'', rndB) \<and>
   rooms stateA ''Af9AAAAA'' \<noteq> None \<and>
   unitDraws rndAB \<and>
   generateRoomId (rooms stateA) rndAB = Some (''fA999999'', dHigh ## sconst dQuarter) \<and>
   generateRoomId (rooms stateA) rndB = Some (''fA999999'', dHigh ## sconst dQuarter) \<and>
   rooms stateA ''fA999999'' = None \<and>
   onMessage stateA 20 (Parsed createRoomMsg) rndB clockE =
     Some (Inr (stateA\<lparr>rooms := (rooms stateA)(''fA999999'' \<mapsto>
                           \<lparr>room_id = ''fA999999'',
                            users = [\<lparr>socket = 20, room = ''fA999999'', userId = ''zfr''\<rparr>],
                            createdAt = 1000\<rparr>),
                       allSockets := allSockets stateA @
                           [\<lparr>socket = 20, room = ''fA999999'', userId = ''zfr''\<rparr>]\<rparr>,
                [(20, RoomCreated ''fA999999'' ''zfr'')])) \<and>
   createRoomRequest (MessageEv 10 (Parsed createRoomMsg) rndA clockE) \<and>
   createRoomRequest (MessageEv 20 (Parsed createRoomMsg) rndB clockE) \<and>
   (case run initial [MessageEv 10 (Parsed createRoomMsg) rndA clockE,
                      MessageEv 20 (Parsed createRoomMsg) rndB clockE] of
      Some (Inr (s', out)) \<Rightarrow> out | other \<Rightarrow> [])
     = [(10, RoomCreated ''Af9AAAAA'' ''i''), (20, RoomCreated ''fA999999'' ''zfr'')] \<and>
   distinct [''Af9AAAAA'', ''fA999999'']"
  using room_identifiers_fresh[where rnd = rndA and rms = Map.empty and rid = "''Af9AAAAA''"
      and rnd' = "dHalf ## sconst dQuarter"
      and src = rndAB and cand = "''Af9AAAAA''" and rest = rndB and reg = "rooms stateA"
      and before = stateA and sock = 20 and rndc = rndB and clock = clockE
      and evs = "[MessageEv 10 (Parsed createRoomMsg) rndA clockE,
                  MessageEv 20 (Parsed createRoomMsg) rndB clockE]" and s = initial]
  by (simp add: unitDraws_examples generateRoomId_rndA generateRoomId_rndB generateRoomId_rndAB
      candidate_rndAB_folded create_rndA create_rndB initial_def thenDo_def chars_def stateA_def
      alice_def clockE_def)

section \<open>User identifiers\<close>

text \<open>
  C10. The user identifier has at most 13 characters, and they are digits of \<open>0-9a-z\<close>
  when the rendering of the random number has the shape of a radix-36 fraction. No minimum
  length holds: \<open>Math.random() = 0.5\<close> is rendered \<open>0.i\<close> and gives the one-character
  identifier \<open>i\<close>, and \<open>Math.random() = 0\<close> is rendered \<open>0\<close> and gives the empty
  identifier.
\<close>

theorem generateUserId_bounds:
  "length (generateUserId d) \<le> 13 \<and>
   (radix36Rendering (radix36 d) \<longrightarrow> set (generateUserId d) \<subseteq> set digits36) \<and>
   radix36Rendering (radix36 dHalf) \<and> generateUserId dHalf = ''i'' \<and>
   radix36Rendering (radix36 d0) \<and> generateUserId d0 = []"
proof -
  have "length (generateUserId d) \<le> 13"
    by (simp add: generateUserId_def substring_def Let_def)
  moreover have "set (generateUserId d) \<subseteq> set digits36" if "radix36Rendering (radix36 d)"
  proof -
    have "set (generateUserId d) \<subseteq> set (drop 2 (radix36 d))"
      by (auto simp: generateUserId_def substring_def Let_def min_def max_def
          dest: in_set_takeD)
    moreover have "set (drop 2 (radix36 d)) \<subseteq> set digits36"
      using that by (auto simp: radix36Rendering_def)
    ultimately show ?thesis by blast
  qed
  moreover have "radix36Rendering (radix36 dHalf)" "radix36Rendering (radix36 d0)"
    by (simp_all add: radix36Rendering_def example_draws digits36_def)
  ultimately show ?thesis by (simp add: generateUserId_examples)
qed

theorem generateUserId_bounds_witness:
  "radix36Rendering (radix36 dHigh) \<and> generateUserId dHigh = ''zfr'' \<and>
   length (generateUserId dHigh) \<le> 13 \<and> set (generateUserId dHigh) \<subseteq> set digits36"
  using generateUserId_bounds[of dHigh]
  by (simp add: radix36Rendering_def example_draws digits36_def generateUserId_examples)

section \<open>Payloads that are not envelopes\<close>

text \<open>
  C1. A payload that \<open>JSON.parse\<close> rejects makes the message handler throw a
  \<open>SyntaxError\<close>; no handler catches it, so the exception leaves the listener and the run
  of the server ends there: the events after it are not handled. The same happens with a
  \<open>TypeError\<close> for the parsed value \<open>null\<close> and for a \<open>joinRoom\<close> or \<open>chat\<close> envelope
  without a payload.
\<close>

theorem unparseable_payload_throws:
  "onMessage s sock Unparseable rnd clock = Some (Inl SyntaxError) \<and>
   run s (MessageEv sock Unparseable rnd clock # evs) = Some (Inl SyntaxError) \<and>
   onMessage s sock (Parsed JNull) rnd clock = Some (Inl TypeError) \<and>
   onMessage s sock (Parsed (JObj [(''type'', JStr ''joinRoom'')])) rnd clock = Some (Inl TypeError) \<and>
   onMessage s sock (Parsed (JObj [(''type'', JStr ''chat'')])) rnd clock = Some (Inl TypeError)"
  by (simp add: onMessage_def thenDo_def lift_def JSON_parse_def typeIs_def joinRoomBranch_def
      chatBranch_def)

section \<open>Joining a room that is not registered\<close>

text \<open>
  C2. A \<open>joinRoom\<close> envelope whose \<open>roomId\<close> is not a key of the room mapping leaves the
  registry as it was (the room mapping, the list of all connections and every member list)
  and sends one envelope, \<open>error\<close> with the message \<open>Room not found\<close>, to the caller.
\<close>

theorem joinRoom_unknown_room:
  assumes "rooms s rid = None"
  shows "onMessage s sock (Parsed (joinRoomMsg rid)) rnd clock =
           Some (Inr (s, [(sock, ErrorEnv ''Room not found'')]))"
  using assms unfolding onMessage_join
  by (simp add: joinRoomBranch_def joinRoomWith_def joinRoomMsg_def thenDo_def lift_def)

theorem joinRoom_unknown_room_witness:
  "rooms initial ''Af9AAAAA'' = None \<and>
   onMessage initial 20 (Parsed (joinRoomMsg ''Af9AAAAA'')) rndJ clockE =
     Some (Inr (initial, [(20, ErrorEnv ''Room not found'')]))"
  using joinRoom_unknown_room[of initial "''Af9AAAAA''" 20 rndJ clockE]
  by (simp add: initial_def)

section \<open>Chat from a connection that is in no room\<close>

text \<open>
  C9. A \<open>chat\<close> envelope from a connection that has no record in \<open>allSockets\<close>, or whose
  first record names a room that is not a key of the room mapping, sends nothing and leaves
  the registry as it was.
\<close>

theorem chat_not_in_room:
  assumes "find (\<lambda>u. socket u = sock) (allSockets s) = None \<or>
           (\<exists>u. find (\<lambda>u. socket u = sock) (allSockets s) = Some u \<and> rooms s (room u) = None)"
  shows "onMessage s sock (Parsed (chatMsg txt)) rnd clock = Some (Inr (s, []))"
  using assms unfolding onMessage_chat
  by (auto simp: chatBranch_def chatWith_def chatMsg_def thenDo_def lift_def)

theorem chat_not_in_room_witness:
  "find (\<lambda>u. socket u = 20) (allSockets initial) = None \<and>
   onMessage initial 20 (Parsed (chatMsg ''hi'')) rndJ clockE = Some (Inr (initial, []))"
  using chat_not_in_room[of 20 initial "''hi''" rndJ clockE]
  by (simp add: initial_def)

section \<open>What the other branches and the close handler return\<close>

lemma roomsGet_Some: "roomsGet rms v = Some (k, rm) \<longleftrightarrow> v = Some (JStr k) \<and> rms k = Some rm"
  by (cases "(rms, v)" rule: roomsGet.cases) (auto split: option.splits)

lemma joinRoomWith_Some:
  assumes "joinRoomWith sock roomId (s, out, rnd) = Some (Inr (s', out', rnd'))"
  shows "(roomsGet (rooms s) roomId = None \<and> s' = s \<and>
            out' = out @ [(sock, ErrorEnv ''Room not found'')]) \<or>
         (\<exists>k rm u. roomId = Some (JStr k) \<and> rooms s k = Some rm \<and>
            u = \<lparr>socket = sock, room = k, userId = generateUserId (shd rnd)\<rparr> \<and>
            s' = s\<lparr>rooms := (rooms s)(k \<mapsto> rm\<lparr>users := users rm @ [u]\<rparr>),
                    allSockets := allSockets s @ [u]\<rparr> \<and>
            out' = out @ map (\<lambda>m. (socket m, UserJoined (length (users rm) + 1))) (users rm) @
                     [(sock, RoomJoined k (userId u) (length (users rm) + 1))])"
proof (cases "roomsGet (rooms s) roomId")
  case None
  with assms show ?thesis by (simp add: joinRoomWith_def)
next
  case (Some a)
  obtain k rm where a: "a = (k, rm)" by (cases a)
  from Some a have "roomId = Some (JStr k)" "rooms s k = Some rm"
    by (simp_all add: roomsGet_Some)
  with assms Some a show ?thesis by (auto simp: joinRoomWith_def Let_def)
qed

lemma joinRoomBranch_Some:
  assumes "joinRoomBranch sock pm h = Some (Inr h')"
  shows "\<exists>roomId. joinRoomWith sock roomId h = Some (Inr h')"
  using assms by (auto simp: joinRoomBranch_def thenDo_def lift_def split: sum.splits)

lemma chatWith_Some:
  assumes "chatWith sock message clock (s, out, rnd) = Some (Inr (s', out', rnd'))"
  shows "s' = s"
  using assms by (auto simp: chatWith_def split: option.splits if_splits)

lemma chatBranch_Some:
  assumes "chatBranch sock pm clock (s, out, rnd) = Some (Inr (s', out', rnd'))"
  shows "s' = s"
  using assms
  by (auto simp: chatBranch_def thenDo_def lift_def split: sum.splits dest: chatWith_Some)

lemma onClose_rooms:
  "nonEmptyRooms s \<Longrightarrow> nonEmptyRooms (fst (onClose s sock))"
  by (auto simp: onClose_def nonEmptyRooms_def Let_def split: option.splits if_splits)

lemma onMessage_nonEmptyRooms:
  assumes "onMessage s sock m rnd clock = Some (Inr (s', out))" "nonEmptyRooms s"
  shows "nonEmptyRooms s'"
  using assms(1)
proof (cases rule: onMessage_cases)
  case (create pm rnd')
  from createRoomBranch_Some[OF create(3)] assms(2) show ?thesis
    by (auto simp: nonEmptyRooms_def split: if_splits)
next
  case (join pm rnd')
  from joinRoomBranch_Some[OF join(3)] obtain roomId where
    "joinRoomWith sock roomId (s, [], rnd) = Some (Inr (s', out, rnd'))" by blast
  from joinRoomWith_Some[OF this] assms(2) show ?thesis
    by (auto simp: nonEmptyRooms_def split: if_splits)
next
  case (chat pm rnd')
  from chatBranch_Some[OF chat(3)] assms(2) show ?thesis by simp
next
  case other
  with assms(2) show ?thesis by simp
qed

lemma step_nonEmptyRooms:
  assumes "step s e = Some (Inr (s', out))" "nonEmptyRooms s"
  shows "nonEmptyRooms s'"
proof (cases e)
  case (MessageEv sock m rnd clock)
  with assms show ?thesis by (auto dest: onMessage_nonEmptyRooms)
next
  case (CloseEv sock)
  with assms onClose_rooms[of s sock] show ?thesis by auto
qed

lemma run_Cons_Some:
  assumes "run s (e # es) = Some (Inr (s', out))"
  obtains s1 out1 out2 where "step s e = Some (Inr (s1, out1))" "run s1 es = Some (Inr (s', out2))"
    "out = out1 @ out2"
  using assms by (auto simp: thenDo_def split: option.splits sum.splits)

lemma run_nonEmptyRooms:
  assumes "run s evs = Some (Inr (s', out))" "nonEmptyRooms s"
  shows "nonEmptyRooms s'"
  using assms
proof (induction evs arbitrary: s out)
  case Nil
  then show ?case by simp
next
  case (Cons e es)
  from Cons.prems(1) obtain s1 out1 out2 where
    st: "step s e = Some (Inr (s1, out1))" and rn: "run s1 es = Some (Inr (s', out2))"
    by (rule run_Cons_Some)
  from Cons.IH[OF rn step_nonEmptyRooms[OF st Cons.prems(2)]] show ?case .
qed

lemma findIndex_None: "findIndex P xs = None \<longleftrightarrow> (\<forall>x\<in>set xs. \<not> P x)"
  by (induction xs) (auto split: option.splits)

lemma find_findIndex:
  "find P xs = Some u \<Longrightarrow> \<exists>i. findIndex P xs = Some i \<and> xs ! i = u"
  by (induction xs) (auto split: option.splits if_splits)

lemma filter_splice1: "length (filter P (splice1 i xs)) \<le> length (filter P xs)"
proof (cases "i < length xs")
  case True
  then have "xs = take i xs @ xs ! i # drop (Suc i) xs" by (rule id_take_nth_drop)
  then have "filter P xs = filter P (take i xs) @ filter P [xs ! i] @ filter P (drop (Suc i) xs)"
    by (metis append_Cons append_Nil filter_append)
  then show ?thesis by (simp add: splice1_def)
next
  case False
  then show ?thesis by (simp add: splice1_def)
qed

lemma onClose_allSockets:
  "allSockets (fst (onClose s sock)) =
     (case findIndex (\<lambda>u. socket u = sock) (allSockets s) of
        None \<Rightarrow> allSockets s | Some i \<Rightarrow> splice1 i (allSockets s))"
  by (auto simp: onClose_def Let_def split: option.splits if_splits)

lemma step_records:
  assumes "step s e = Some (Inr (s', out))"
  shows "length (records c s') \<le> length (records c s) + (if bindRequest c e then 1 else 0)"
proof (cases e)
  case (CloseEv sock)
  with assms have "s' = fst (onClose s sock)" by auto
  then show ?thesis
    by (simp add: records_def onClose_allSockets filter_splice1 le_SucI split: option.splits)
next
  case (MessageEv sock m rnd clock)
  with assms have om: "onMessage s sock m rnd clock = Some (Inr (s', out))" by simp
  from om show ?thesis
  proof (cases rule: onMessage_cases)
    case (create pm rnd')
    from createRoomBranch_Some[OF create(3)] create(1,2) MessageEv show ?thesis
      by (auto simp: records_def)
  next
    case (join pm rnd')
    from joinRoomBranch_Some[OF join(3)] obtain roomId where
      "joinRoomWith sock roomId (s, [], rnd) = Some (Inr (s', out, rnd'))" by blast
    from joinRoomWith_Some[OF this] join(1,2) MessageEv show ?thesis
      by (auto simp: records_def)
  next
    case (chat pm rnd')
    from chatBranch_Some[OF chat(3)] show ?thesis by simp
  next
    case other
    then show ?thesis by simp
  qed
qed

lemma run_records:
  assumes "run s evs = Some (Inr (s', out))"
  shows "length (records c s') \<le> length (records c s) + length (filter (bindRequest c) evs)"
  using assms
proof (induction evs arbitrary: s out)
  case Nil
  then show ?case by simp
next
  case (Cons e es)
  from Cons.prems(1) obtain s1 out1 out2 where
    st: "step s e = Some (Inr (s1, out1))" and rn: "run s1 es = Some (Inr (s', out2))"
    by (rule run_Cons_Some)
  from Cons.IH[OF rn] step_records[OF st, of c] show ?case
    by (cases "bindRequest c e") simp_all
qed

lemma join_eval:
  "onMessage s sock (Parsed (joinRoomMsg rid)) rnd clock =
     (case rooms s rid of
        None \<Rightarrow> Some (Inr (s, [(sock, ErrorEnv ''Room not found'')]))
      | Some rm \<Rightarrow>
          Some (Inr (s\<lparr>rooms := (rooms s)(rid \<mapsto> rm\<lparr>users := users rm @
                                   [\<lparr>socket = sock, room = rid, userId = generateUserId (shd rnd)\<rparr>]\<rparr>),
                        allSockets := allSockets s @
                                   [\<lparr>socket = sock, room = rid, userId = generateUserId (shd rnd)\<rparr>]\<rparr>,
                     map (\<lambda>m. (socket m, UserJoined (length (users rm) + 1))) (users rm) @
                       [(sock, RoomJoined rid (generateUserId (shd rnd)) (length (users rm) + 1))])))"
  unfolding onMessage_join
  by (simp add: joinRoomBranch_def joinRoomWith_def joinRoomMsg_def thenDo_def lift_def Let_def
      split: option.splits)

lemma chat_eval:
  "onMessage s sock (Parsed (chatMsg txt)) rnd clock =
     (case find (\<lambda>u. socket u = sock) (allSockets s) of
        None \<Rightarrow> Some (Inr (s, []))
      | Some u \<Rightarrow>
          (case (if room u \<noteq> [] then rooms s (room u) else None) of
             None \<Rightarrow> Some (Inr (s, []))
           | Some rm \<Rightarrow>
               Some (Inr (s, map (\<lambda>(k, m). (socket m, ChatMessage (Some (JStr txt)) (userId u) (clock k)))
                               (enumerate 0 (users rm))))))"
  unfolding onMessage_chat
  by (simp add: chatBranch_def chatWith_def chatMsg_def thenDo_def lift_def
      split: option.splits)

lemmas run_eval = thenDo_def create_rndA create_rndB join_eval chat_eval onClose_def
  splice1_def Let_def initial_def rndJ_def generateUserId_examples clockE_def

lemmas example_states = alice_def bob_def stateA_def stateAB_def alice9_def aliceB_def bobB_def
  stateSelf_def stateTwice_def stateTwoRooms_def

lemma run_stateA:
  "run initial [MessageEv 10 (Parsed createRoomMsg) rndA clockE] =
     Some (Inr (stateA, [(10, RoomCreated ''Af9AAAAA'' ''i'')]))"
  by (simp add: run_eval example_states)

lemma run_stateAB:
  "run initial [MessageEv 10 (Parsed createRoomMsg) rndA clockE,
                MessageEv 20 (Parsed (joinRoomMsg ''Af9AAAAA'')) rndJ clockE] =
     Some (Inr (stateAB, [(10, RoomCreated ''Af9AAAAA'' ''i''), (10, UserJoined 2),
                          (20, RoomJoined ''Af9AAAAA'' ''9'' 2)]))"
  by (simp add: run_eval example_states)

lemma onClose_eval:
  assumes "find (\<lambda>u. socket u = sock) (allSockets s) = Some u"
    and "rooms s (room u) = Some rm"
    and "findIndex (\<lambda>m. socket m = sock) (users rm) = Some j"
  shows "\<exists>i. onClose s sock =
           (s\<lparr>allSockets := splice1 i (allSockets s),
              rooms := (if splice1 j (users rm) = [] then (rooms s)(room u := None)
                        else (rooms s)(room u \<mapsto> rm\<lparr>users := splice1 j (users rm)\<rparr>))\<rparr>,
            map (\<lambda>m. (socket m, UserLeft (length (splice1 j (users rm))))) (splice1 j (users rm)))"
proof -
  from find_findIndex[OF assms(1)] obtain i where
    i: "findIndex (\<lambda>u. socket u = sock) (allSockets s) = Some i" "allSockets s ! i = u"
    by blast
  with assms(2,3) have "onClose s sock =
           (s\<lparr>allSockets := splice1 i (allSockets s),
              rooms := (if splice1 j (users rm) = [] then (rooms s)(room u := None)
                        else (rooms s)(room u \<mapsto> rm\<lparr>users := splice1 j (users rm)\<rparr>))\<rparr>,
            map (\<lambda>m. (socket m, UserLeft (length (splice1 j (users rm))))) (splice1 j (users rm)))"
    by (simp add: onClose_def Let_def)
  then show ?thesis ..
qed

lemma splice1_Cons: "splice1 (Suc j) (x # xs) = x # splice1 j xs"
  by (simp add: splice1_def)

lemma splice1_only:
  "findIndex P xs = Some j \<Longrightarrow> length (filter P xs) = 1 \<Longrightarrow> splice1 j xs = filter (\<lambda>x. \<not> P x) xs"
proof (induction xs arbitrary: j)
  case Nil
  then show ?case by simp
next
  case (Cons x xs)
  show ?case
  proof (cases "P x")
    case True
    with Cons.prems have "j = 0" "filter P xs = []" by simp_all
    then have "filter (\<lambda>x. \<not> P x) xs = xs" by (simp add: filter_empty_conv)
    with True \<open>j = 0\<close> show ?thesis by (simp add: splice1_def)
  next
    case False
    with Cons.prems obtain j' where j': "findIndex P xs = Some j'" "j = Suc j'"
      by (auto split: option.splits)
    from Cons.prems(2) False have "length (filter P xs) = 1" by simp
    from Cons.IH[OF j'(1) this] False j'(2) show ?thesis by (simp add: splice1_Cons)
  qed
qed

lemma filter_findIndex:
  "length (filter P xs) = 1 \<Longrightarrow> \<exists>j. findIndex P xs = Some j"
  by (cases "findIndex P xs") (auto simp: findIndex_None filter_empty_conv)

lemma length_filter_others:
  "length (filter P xs) = 1 \<Longrightarrow> length (filter (\<lambda>x. \<not> P x) xs) = length xs - 1"
  using sum_length_filter_compl[of P xs] by simp

lemma nonEmptyRooms_initial: "nonEmptyRooms initial"
  by (simp add: nonEmptyRooms_def initial_def)

section \<open>Joining a registered room\<close>

text \<open>
  C4, as the code has it. A \<open>joinRoom\<close> for a registered room with \<open>N\<close> members sends,
  for every member record already in the room and in join order, one \<open>userJoined\<close>
  envelope with \<open>userCount = N + 1\<close> to that record's connection; these are sent before
  the \<open>roomJoined\<close> envelope to the joiner, which carries the same \<open>N + 1\<close>, and the
  recipients are the members before the new record is appended to the room and to
  \<open>allSockets\<close>. The joiner is sent no \<open>userJoined\<close> envelope when it is not already a
  member of the room.
\<close>

theorem joinRoom_notifies_members:
  assumes "rooms s rid = Some rm"
  shows "onMessage s sock (Parsed (joinRoomMsg rid)) rnd clock =
           Some (Inr (s\<lparr>rooms := (rooms s)(rid \<mapsto> rm\<lparr>users := users rm @
                                   [\<lparr>socket = sock, room = rid, userId = generateUserId (shd rnd)\<rparr>]\<rparr>),
                        allSockets := allSockets s @
                                   [\<lparr>socket = sock, room = rid, userId = generateUserId (shd rnd)\<rparr>]\<rparr>,
                     map (\<lambda>m. (socket m, UserJoined (length (users rm) + 1))) (users rm) @
                       [(sock, RoomJoined rid (generateUserId (shd rnd)) (length (users rm) + 1))])) \<and>
         (sock \<notin> socket ` set (users rm) \<longrightarrow>
            sock \<notin> fst ` set (map (\<lambda>m. (socket m, UserJoined (length (users rm) + 1))) (users rm)))"
  using assms by (auto simp: join_eval)

theorem joinRoom_notifies_members_witness:
  "rooms stateA ''Af9AAAAA'' = Some \<lparr>room_id = ''Af9AAAAA'', users = [alice], createdAt = 1000\<rparr> \<and>
   20 \<notin> socket ` set [alice] \<and>
   onMessage stateA 20 (Parsed (joinRoomMsg ''Af9AAAAA'')) rndJ clockE =
     Some (Inr (stateAB, [(10, UserJoined 2), (20, RoomJoined ''Af9AAAAA'' ''9'' 2)]))"
  using joinRoom_notifies_members[of stateA "''Af9AAAAA''"
      "\<lparr>room_id = ''Af9AAAAA'', users = [alice], createdAt = 1000\<rparr>" 20 rndJ clockE]
  by (simp add: example_states rndJ_def generateUserId_examples)

text \<open>
  C4 fails as stated when the joiner is already a member: connection 10 creates a room and
  then joins it, and is sent \<open>userJoined\<close> with \<open>userCount = 2\<close> as an existing member
  before its own \<open>roomJoined\<close>.
\<close>

theorem joiner_receives_userJoined:
  "run initial [MessageEv 10 (Parsed createRoomMsg) rndA clockE] =
     Some (Inr (stateA, [(10, RoomCreated ''Af9AAAAA'' ''i'')])) \<and>
   rooms stateA ''Af9AAAAA'' = Some \<lparr>room_id = ''Af9AAAAA'', users = [alice], createdAt = 1000\<rparr> \<and>
   onMessage stateA 10 (Parsed (joinRoomMsg ''Af9AAAAA'')) rndJ clockE =
     Some (Inr (stateSelf, [(10, UserJoined 2), (10, RoomJoined ''Af9AAAAA'' ''9'' 2)]))"
  by (simp add: run_eval example_states)

section \<open>Chat\<close>

text \<open>
  C5, as the code has it. The room of a \<open>chat\<close> is the room named by the first record of
  the sending connection in \<open>allSockets\<close>. When that room is registered (and its identifier
  is not the empty string) with \<open>N\<close> members, \<open>N\<close> \<open>message\<close> envelopes are sent, one
  to the connection of each member record in join order, each with the text as it came, the
  \<open>userId\<close> of that first record and the clock reading of its own send; nothing else is
  sent and the registry is unchanged.
\<close>

theorem chat_delivers_to_room:
  assumes "find (\<lambda>u. socket u = sock) (allSockets s) = Some u"
    and "room u \<noteq> []"
    and "rooms s (room u) = Some rm"
  shows "onMessage s sock (Parsed (chatMsg txt)) rnd clock =
           Some (Inr (s, map (\<lambda>(k, m). (socket m, ChatMessage (Some (JStr txt)) (userId u) (clock k)))
                           (enumerate 0 (users rm)))) \<and>
         map fst (map (\<lambda>(k, m). (socket m, ChatMessage (Some (JStr txt)) (userId u) (clock k)))
                           (enumerate 0 (users rm))) = map socket (users rm)"
proof -
  have "map (fst \<circ> (\<lambda>(k, m). (socket m, ChatMessage (Some (JStr txt)) (userId u) (clock k))))
          (enumerate n us) = map socket us" for n and us :: "User list"
    by (induction us arbitrary: n) simp_all
  with assms show ?thesis by (simp add: chat_eval)
qed

theorem chat_delivers_to_room_witness:
  "find (\<lambda>u. socket u = 20) (allSockets stateAB) = Some bob \<and> room bob \<noteq> [] \<and>
   rooms stateAB (room bob) = Some \<lparr>room_id = ''Af9AAAAA'', users = [alice, bob], createdAt = 1000\<rparr> \<and>
   onMessage stateAB 20 (Parsed (chatMsg ''hi'')) rndJ clockE =
     Some (Inr (stateAB, [(10, ChatMessage (Some (JStr ''hi'')) ''9'' 1000),
                          (20, ChatMessage (Some (JStr ''hi'')) ''9'' 1001)]))"
  using chat_delivers_to_room[of 20 stateAB bob
      "\<lparr>room_id = ''Af9AAAAA'', users = [alice, bob], createdAt = 1000\<rparr>" "''hi''" rndJ clockE]
  by (simp add: example_states clockE_def)

text \<open>
  C5 fails as stated for a connection that is a member of two rooms: connection 10 creates
  two rooms and connection 20 joins the second. Connection 10 is then a member of the second
  room, which has two members, but its \<open>chat\<close> is delivered to the first room only: one
  envelope, to connection 10, with the \<open>userId\<close> of its first record; connection 20
  receives nothing.
\<close>

theorem chat_reaches_first_room_only:
  "run initial [MessageEv 10 (Parsed createRoomMsg) rndA clockE,
                MessageEv 10 (Parsed createRoomMsg) rndB clockE,
                MessageEv 20 (Parsed (joinRoomMsg ''fA999999'')) rndJ clockE] =
     Some (Inr (stateTwoRooms,
                [(10, RoomCreated ''Af9AAAAA'' ''i''), (10, RoomCreated ''fA999999'' ''zfr''),
                 (10, UserJoined 2), (20, RoomJoined ''fA999999'' ''9'' 2)])) \<and>
   rooms stateTwoRooms ''fA999999'' =
     Some \<lparr>room_id = ''fA999999'', users = [aliceB, bobB], createdAt = 1000\<rparr> \<and>
   map socket [aliceB, bobB] = [10, 20] \<and>
   onMessage stateTwoRooms 10 (Parsed (chatMsg ''hi'')) rndJ clockE =
     Some (Inr (stateTwoRooms, [(10, ChatMessage (Some (JStr ''hi'')) ''i'' 1000)]))"
  by (simp add: run_eval example_states)

section \<open>Closing a connection\<close>

text \<open>
  C6, as the code has it. The close handler removes the first record of the connection
  from \<open>allSockets\<close> and works on the room which that record names. When that room is
  registered with \<open>N \<ge> 2\<close> member records of which exactly one belongs to the closing
  connection, each of the other \<open>N - 1\<close> member records is sent one \<open>userLeft\<close> envelope
  with \<open>userCount = N - 1\<close>, the closing connection is sent none, and the room stays
  registered with those \<open>N - 1\<close> members.
\<close>

theorem close_notifies_remaining:
  assumes "find (\<lambda>u. socket u = sock) (allSockets s) = Some u"
    and "rooms s (room u) = Some rm"
    and "length (filter (\<lambda>m. socket m = sock) (users rm)) = 1"
    and "2 \<le> length (users rm)"
  shows "snd (onClose s sock) =
           map (\<lambda>m. (socket m, UserLeft (length (users rm) - 1)))
             (filter (\<lambda>m. socket m \<noteq> sock) (users rm)) \<and>
         length (snd (onClose s sock)) = length (users rm) - 1 \<and>
         sock \<notin> fst ` set (snd (onClose s sock)) \<and>
         rooms (fst (onClose s sock)) (room u) =
           Some (rm\<lparr>users := filter (\<lambda>m. socket m \<noteq> sock) (users rm)\<rparr>)"
proof -
  from filter_findIndex[OF assms(3)] obtain j where
    j: "findIndex (\<lambda>m. socket m = sock) (users rm) = Some j" by blast
  have sp: "splice1 j (users rm) = filter (\<lambda>m. socket m \<noteq> sock) (users rm)"
    using splice1_only[OF j assms(3)] .
  have len: "length (filter (\<lambda>m. socket m \<noteq> sock) (users rm)) = length (users rm) - 1"
    using length_filter_others[OF assms(3)] .
  with assms(4) have ne: "filter (\<lambda>m. socket m \<noteq> sock) (users rm) \<noteq> []" by auto
  from onClose_eval[OF assms(1,2) j] obtain i where
    "onClose s sock =
       (s\<lparr>allSockets := splice1 i (allSockets s),
          rooms := (if splice1 j (users rm) = [] then (rooms s)(room u := None)
                    else (rooms s)(room u \<mapsto> rm\<lparr>users := splice1 j (users rm)\<rparr>))\<rparr>,
        map (\<lambda>m. (socket m, UserLeft (length (splice1 j (users rm))))) (splice1 j (users rm)))"
    by blast
  with sp len ne show ?thesis by auto
qed

theorem close_notifies_remaining_witness:
  "find (\<lambda>u. socket u = 10) (allSockets stateAB) = Some alice \<and>
   rooms stateAB (room alice) = Some \<lparr>room_id = ''Af9AAAAA'', users = [alice, bob], createdAt = 1000\<rparr> \<and>
   length (filter (\<lambda>m. socket m = 10) [alice, bob]) = 1 \<and>
   snd (onClose stateAB 10) = [(20, UserLeft 1)] \<and>
   rooms (fst (onClose stateAB 10)) ''Af9AAAAA'' =
     Some \<lparr>room_id = ''Af9AAAAA'', users = [bob], createdAt = 1000\<rparr>"
  using close_notifies_remaining[of 10 stateAB alice
      "\<lparr>room_id = ''Af9AAAAA'', users = [alice, bob], createdAt = 1000\<rparr>"]
  by (simp add: example_states)

text \<open>
  C6 fails as stated when the closing connection has two member records in the room:
  connection 10 creates a room, joins it again (two members) and closes. One record is
  removed and the \<open>userLeft\<close> envelope with \<open>userCount = 1\<close> is sent to the record that
  remains, which is the closing connection's.
\<close>

theorem close_notifies_departing:
  "run initial [MessageEv 10 (Parsed createRoomMsg) rndA clockE,
                MessageEv 10 (Parsed (joinRoomMsg ''Af9AAAAA'')) rndJ clockE] =
     Some (Inr (stateSelf, [(10, RoomCreated ''Af9AAAAA'' ''i''), (10, UserJoined 2),
                            (10, RoomJoined ''Af9AAAAA'' ''9'' 2)])) \<and>
   rooms stateSelf ''Af9AAAAA'' =
     Some \<lparr>room_id = ''Af9AAAAA'', users = [alice, alice9], createdAt = 1000\<rparr> \<and>
   map socket [alice, alice9] = [10, 10] \<and>
   snd (onClose stateSelf 10) = [(10, UserLeft 1)]"
  by (simp add: run_eval example_states)

section \<open>Invariants of the registry\<close>

text \<open>
  C7. In every registry reached from the empty one by a run of events (messages of any
  content and closes), every registered room has at least one member. When the connection
  that closes is the only member of the room its first record names, the room is removed
  from the mapping by that close, and a \<open>joinRoom\<close> with its identifier on the resulting
  registry is answered with \<open>Room not found\<close>.
\<close>

theorem rooms_never_empty:
  "(run initial evs = Some (Inr (s, out)) \<longrightarrow>
      (\<forall>rid rm. rooms s rid = Some rm \<longrightarrow> users rm \<noteq> [])) \<and>
   (find (\<lambda>u. socket u = sock) (allSockets s0) = Some u \<and> rooms s0 (room u) = Some rm0 \<and>
    map socket (users rm0) = [sock] \<longrightarrow>
      rooms (fst (onClose s0 sock)) (room u) = None \<and>
      onMessage (fst (onClose s0 sock)) c (Parsed (joinRoomMsg (room u))) rnd clock =
        Some (Inr (fst (onClose s0 sock), [(c, ErrorEnv ''Room not found'')])))"
proof (intro conjI impI)
  assume "run initial evs = Some (Inr (s, out))"
  from run_nonEmptyRooms[OF this nonEmptyRooms_initial]
  show "\<forall>rid rm. rooms s rid = Some rm \<longrightarrow> users rm \<noteq> []"
    by (simp add: nonEmptyRooms_def)
next
  assume a: "find (\<lambda>u. socket u = sock) (allSockets s0) = Some u \<and> rooms s0 (room u) = Some rm0 \<and>
    map socket (users rm0) = [sock]"
  then obtain m where m: "users rm0 = [m]" "socket m = sock" by auto
  then have j: "findIndex (\<lambda>m. socket m = sock) (users rm0) = Some 0" by simp
  from a onClose_eval[OF _ _ j, of s0 u] m
  show gone: "rooms (fst (onClose s0 sock)) (room u) = None"
    by (auto simp: splice1_def)
  then show "onMessage (fst (onClose s0 sock)) c (Parsed (joinRoomMsg (room u))) rnd clock =
        Some (Inr (fst (onClose s0 sock), [(c, ErrorEnv ''Room not found'')]))"
    by (simp add: join_eval)
qed

theorem rooms_never_empty_witness:
  "run initial [MessageEv 10 (Parsed createRoomMsg) rndA clockE] =
     Some (Inr (stateA, [(10, RoomCreated ''Af9AAAAA'' ''i'')])) \<and>
   rooms stateA ''Af9AAAAA'' = Some \<lparr>room_id = ''Af9AAAAA'', users = [alice], createdAt = 1000\<rparr> \<and>
   users \<lparr>room_id = ''Af9AAAAA'', users = [alice], createdAt = 1000\<rparr> \<noteq> [] \<and>
   find (\<lambda>u. socket u = 10) (allSockets stateA) = Some alice \<and>
   map socket [alice] = [10] \<and>
   rooms (fst (onClose stateA 10)) ''Af9AAAAA'' = None \<and>
   onMessage (fst (onClose stateA 10)) 20 (Parsed (joinRoomMsg ''Af9AAAAA'')) rndJ clockE =
     Some (Inr (fst (onClose stateA 10), [(20, ErrorEnv ''Room not found'')]))"
  using rooms_never_empty[of "[MessageEv 10 (Parsed createRoomMsg) rndA clockE]" stateA
      "[(10, RoomCreated ''Af9AAAAA'' ''i'')]" 10 stateA alice
      "\<lparr>room_id = ''Af9AAAAA'', users = [alice], createdAt = 1000\<rparr>" 20 rndJ clockE]
    run_stateA
  by (simp add: example_states)

text \<open>
  C8, as the code has it. After any run from the empty registry a connection has at most as
  many records in \<open>allSockets\<close> as it has sent \<open>createRoom\<close> and \<open>joinRoom\<close>
  envelopes; so it has at most one record when it has sent at most one of them.
\<close>

theorem records_bounded_by_requests:
  assumes "run initial evs = Some (Inr (s, out))"
  shows "length (records c s) \<le> length (filter (bindRequest c) evs) \<and>
         (length (filter (bindRequest c) evs) \<le> 1 \<longrightarrow> length (records c s) \<le> 1)"
  using run_records[OF assms, of c] by (simp add: records_def initial_def)

theorem records_bounded_by_requests_witness:
  "run initial [MessageEv 10 (Parsed createRoomMsg) rndA clockE] =
     Some (Inr (stateA, [(10, RoomCreated ''Af9AAAAA'' ''i'')])) \<and>
   length (filter (bindRequest 10) [MessageEv 10 (Parsed createRoomMsg) rndA clockE]) = 1 \<and>
   records 10 stateA = [alice]"
  using records_bounded_by_requests[of "[MessageEv 10 (Parsed createRoomMsg) rndA clockE]" stateA
      "[(10, RoomCreated ''Af9AAAAA'' ''i'')]" 10] run_stateA
  by (simp add: example_states records_def createRoomMsg_def)

text \<open>
  C8 fails as stated: nothing stops a connection from sending \<open>createRoom\<close> twice, and
  connection 10 then has two records.
\<close>

theorem two_records_for_one_connection:
  "run initial [MessageEv 10 (Parsed createRoomMsg) rndA clockE,
                MessageEv 10 (Parsed createRoomMsg) rndB clockE] =
     Some (Inr (stateTwice,
                [(10, RoomCreated ''Af9AAAAA'' ''i''), (10, RoomCreated ''fA999999'' ''zfr'')])) \<and>
   records 10 stateTwice = [alice, aliceB] \<and> length (records 10 stateTwice) = 2"
  by (simp add: run_eval example_states records_def)

end
